theory Spec2Isabelle
  imports Complex_Main "HOL-Library.AList"
begin

section \<open>Text\<close>

text \<open>
  A Python \<open>str\<close> is modelled as a \<open>string\<close> of ASCII characters. On ASCII the
  Unicode-aware classes of \<open>re\<close> are: \<open>\w\<close> = letters, digits and the underscore,
  \<open>\d\<close> = the ten digits, \<open>\s\<close> = blank, tab, line feed, vertical tab, form feed,
  carriage return and the four separators 0x1C to 0x1F. \<open>str.lower\<close> maps
  \<open>A\<close>..\<open>Z\<close> to \<open>a\<close>..\<open>z\<close> and leaves every other character alone.
\<close>

definition is_digit :: "char \<Rightarrow> bool" where
  "is_digit c = (c \<in> set ''0123456789'')"

definition is_upper :: "char \<Rightarrow> bool" where
  "is_upper c = (c \<in> set ''ABCDEFGHIJKLMNOPQRSTUVWXYZ'')"

definition is_lower :: "char \<Rightarrow> bool" where
  "is_lower c = (c \<in> set ''abcdefghijklmnopqrstuvwxyz'')"

definition is_word :: "char \<Rightarrow> bool" where
  "is_word c = (is_lower c \<or> is_upper c \<or> is_digit c \<or> c = CHR ''_'')"

definition is_space :: "char \<Rightarrow> bool" where
  "is_space c = (c \<in> set [CHR '' '', CHR 0x09, CHR 0x0A, CHR 0x0B, CHR 0x0C, CHR 0x0D,
     CHR 0x1C, CHR 0x1D, CHR 0x1E, CHR 0x1F])"

definition lower_char :: "char \<Rightarrow> char" where
  "lower_char c =
     (case map_of (zip ''ABCDEFGHIJKLMNOPQRSTUVWXYZ'' ''abcdefghijklmnopqrstuvwxyz'') c of
        Some l \<Rightarrow> l
      | None \<Rightarrow> c)"

definition upper_char :: "char \<Rightarrow> char" where
  "upper_char c =
     (case map_of (zip ''abcdefghijklmnopqrstuvwxyz'' ''ABCDEFGHIJKLMNOPQRSTUVWXYZ'') c of
        Some u \<Rightarrow> u
      | None \<Rightarrow> c)"

text \<open>\<open>str.lower()\<close> and \<open>str.strip()\<close>.\<close>

definition lower :: "string \<Rightarrow> string" where
  "lower s = map lower_char s"

definition strip :: "string \<Rightarrow> string" where
  "strip s = rev (dropWhile is_space (rev (dropWhile is_space s)))"

text \<open>
  \<open>float(s)\<close> for a string the amount pattern captured, that is digits with an optional
  point and two more digits. The value is kept as the exact rational the decimal denotes.
  Python rounds it to the nearest double; 500 is a double and a decimal with two places
  that differs from 500 differs by at least 0.01, so the comparison with the threshold
  below gives the same answer on the exact value.
\<close>

definition digit_val :: "char \<Rightarrow> rat" where
  "digit_val c =
     (case map_of (zip ''0123456789'' [0, 1, 2, 3, 4, 5, 6, 7, 8, 9]) c of
        Some d \<Rightarrow> d
      | None \<Rightarrow> 0)"

definition digits_val :: "string \<Rightarrow> rat" where
  "digits_val s = foldl (\<lambda>acc c. 10 * acc + digit_val c) 0 s"

definition float_of :: "string \<Rightarrow> rat" where
  "float_of s =
     (let ip = takeWhile (\<lambda>c. c \<noteq> CHR ''.'') s;
          fp = drop (Suc (length ip)) s
      in digits_val ip + digits_val fp / 10 ^ length fp)"

section \<open>Regular expressions as \<open>re\<close> matches them\<close>

text \<open>
  The patterns of the source use literals, classes, alternation, groups, the greedy
  \<open>*\<close>, \<open>+\<close>, \<open>?\<close> and \<open>{n}\<close>, the lazy \<open>+?\<close>, \<open>\b\<close> and \<open>$\<close>. Every repetition in them is
  over a single character class, so \<open>Star\<close>, \<open>Plus\<close>, \<open>PlusLazy\<close> and \<open>Times\<close> take one.
\<close>

datatype citem = CChar char | CRange char char | CWord

datatype atom = Lit char | Dot | Digit | Space | InSet "citem list" | NotInSet "citem list"

datatype regex =
    Atom atom
  | Chars string
  | Seq regex regex
  | Alt regex regex
  | Opt regex
  | Star atom
  | Plus atom
  | PlusLazy atom
  | Times nat atom
  | Group nat regex
  | WordB
  | EndStr

fun item_match :: "citem \<Rightarrow> char \<Rightarrow> bool" where
  "item_match (CChar a) c = (c = a)"
| "item_match (CRange a b) c =
     ((of_char a :: nat) \<le> of_char c \<and> (of_char c :: nat) \<le> of_char b)"
| "item_match CWord c = is_word c"

fun atom_match1 :: "atom \<Rightarrow> char \<Rightarrow> bool" where
  "atom_match1 (Lit a) c = (c = a)"
| "atom_match1 Dot c = (c \<noteq> CHR 0x0A)"
| "atom_match1 Digit c = is_digit c"
| "atom_match1 Space c = is_space c"
| "atom_match1 (InSet items) c = list_ex (\<lambda>i. item_match i c) items"
| "atom_match1 (NotInSet items) c = (\<not> list_ex (\<lambda>i. item_match i c) items)"

text \<open>
  The first argument is the \<open>re.IGNORECASE\<close> flag: with it a character is in a class
  when it, its lower case or its upper case is; a negated set is the complement of that.
\<close>

definition in_class :: "bool \<Rightarrow> atom \<Rightarrow> char \<Rightarrow> bool" where
  "in_class ic a c =
     (if ic then atom_match1 a c \<or> atom_match1 a (lower_char c) \<or> atom_match1 a (upper_char c)
      else atom_match1 a c)"

fun atom_match :: "bool \<Rightarrow> atom \<Rightarrow> char \<Rightarrow> bool" where
  "atom_match ic (NotInSet items) c = (\<not> in_class ic (InSet items) c)"
| "atom_match ic a c = in_class ic a c"

text \<open>
  A position in the subject: the text already passed (last character first), the text
  ahead, and the groups captured on the way.
\<close>

record mstate =
  consumed :: string
  remaining :: string
  groups :: "(nat \<times> string) list"

definition advance :: "nat \<Rightarrow> mstate \<Rightarrow> mstate" where
  "advance k st =
     st\<lparr>consumed := rev (take k (remaining st)) @ consumed st,
        remaining := drop k (remaining st)\<rparr>"

definition at_boundary :: "mstate \<Rightarrow> bool" where
  "at_boundary st =
    ((case consumed st of [] \<Rightarrow> False | p # _ \<Rightarrow> is_word p) \<noteq>
     (case remaining st of [] \<Rightarrow> False | n # _ \<Rightarrow> is_word n))"

definition run_len :: "bool \<Rightarrow> atom \<Rightarrow> string \<Rightarrow> nat" where
  "run_len ic a s = length (takeWhile (atom_match ic a) s)"

fun chars_match :: "bool \<Rightarrow> string \<Rightarrow> string \<Rightarrow> bool" where
  "chars_match ic [] s = True"
| "chars_match ic (p # ps) [] = False"
| "chars_match ic (p # ps) (c # cs) = (atom_match ic (Lit p) c \<and> chars_match ic ps cs)"

text \<open>
  \<open>rmatch ic r st\<close> lists the positions where a match of \<open>r\<close> begun at \<open>st\<close> can end, in
  the order in which the backtracking matcher of \<open>re\<close> tries them: the left alternative
  before the right one, the longest repetition first for a greedy operator and the
  shortest first for a lazy one. The head of the list is the match \<open>re\<close> reports.
\<close>

fun rmatch :: "bool \<Rightarrow> regex \<Rightarrow> mstate \<Rightarrow> mstate list" where
  "rmatch ic (Atom a) st =
     (case remaining st of
        [] \<Rightarrow> []
      | c # _ \<Rightarrow> if atom_match ic a c then [advance 1 st] else [])"
| "rmatch ic (Chars p) st =
     (if chars_match ic p (remaining st) then [advance (length p) st] else [])"
| "rmatch ic (Seq r1 r2) st = concat (map (rmatch ic r2) (rmatch ic r1 st))"
| "rmatch ic (Alt r1 r2) st = rmatch ic r1 st @ rmatch ic r2 st"
| "rmatch ic (Opt r) st = rmatch ic r st @ [st]"
| "rmatch ic (Star a) st =
     map (\<lambda>k. advance k st) (rev [0 ..< Suc (run_len ic a (remaining st))])"
| "rmatch ic (Plus a) st =
     map (\<lambda>k. advance k st) (rev [1 ..< Suc (run_len ic a (remaining st))])"
| "rmatch ic (PlusLazy a) st =
     map (\<lambda>k. advance k st) [1 ..< Suc (run_len ic a (remaining st))]"
| "rmatch ic (Times n a) st =
     (if n \<le> run_len ic a (remaining st) then [advance n st] else [])"
| "rmatch ic (Group g r) st =
     map (\<lambda>st'. st'\<lparr>groups :=
            (g, rev (take (length (consumed st') - length (consumed st)) (consumed st')))
              # groups st'\<rparr>)
       (rmatch ic r st)"
| "rmatch ic WordB st = (if at_boundary st then [st] else [])"
| "rmatch ic EndStr st =
     (if remaining st = [] \<or> remaining st = [CHR 0x0A] then [st] else [])"

text \<open>\<open>re.search\<close>: the first start position, from the left, at which the pattern matches.\<close>

fun search_from :: "bool \<Rightarrow> regex \<Rightarrow> string \<Rightarrow> string \<Rightarrow> mstate option" where
  "search_from ic r bef [] =
     (case rmatch ic r \<lparr>consumed = bef, remaining = [], groups = []\<rparr> of
        [] \<Rightarrow> None
      | m # _ \<Rightarrow> Some m)"
| "search_from ic r bef (c # cs) =
     (case rmatch ic r \<lparr>consumed = bef, remaining = c # cs, groups = []\<rparr> of
        [] \<Rightarrow> search_from ic r (c # bef) cs
      | m # _ \<Rightarrow> Some m)"

definition search :: "bool \<Rightarrow> regex \<Rightarrow> string \<Rightarrow> mstate option" where
  "search ic r s = search_from ic r [] s"

text \<open>\<open>m.group(g)\<close>; \<open>None\<close> when the group took no part in the match.\<close>

definition group :: "nat \<Rightarrow> mstate \<Rightarrow> string option" where
  "group g m = map_of (groups m) g"

text \<open>
  The source only tests the list \<open>re.findall\<close> returns for emptiness and reads its first
  element. \<open>findall\<close> scans from the left, so the list is empty exactly when \<open>re.search\<close>
  finds nothing and its first element is group \<open>g\<close> of the match \<open>re.search\<close> finds.
\<close>

definition findall_first :: "bool \<Rightarrow> regex \<Rightarrow> nat \<Rightarrow> string \<Rightarrow> string option" where
  "findall_first ic r g s = (case search ic r s of None \<Rightarrow> None | Some m \<Rightarrow> group g m)"

section \<open>The text analyzer\<close>

datatype intent =
  unknown | email_draft | payment_request | data_extraction | payment_acknowledgment | general

datatype priority = medium | high

datatype category = other | communication | finance | admin

datatype entity = Text string | Number rat

text \<open>
  The two approval reasons of the source: the fixed sentence of the email rule, and the
  sentence of the payment rule, which quotes the amount.
\<close>

datatype approval_reason = Email_reply_rule | Exceeds_threshold rat

text \<open>The \<open>results\<close> dictionary; \<open>entities\<close> keeps the keys in insertion order.\<close>

record intent_result =
  intent :: intent
  confidence :: rat
  priority :: priority
  category :: category
  entities :: "(string \<times> entity) list"
  requires_approval :: bool
  approval_reason :: "approval_reason option"

definition set_entity :: "string \<Rightarrow> entity \<Rightarrow> intent_result \<Rightarrow> intent_result" where
  "set_entity k v r = r\<lparr>entities := AList.update k v (entities r)\<rparr>"

definition entity_of :: "intent_result \<Rightarrow> string \<Rightarrow> entity option" where
  "entity_of r k = map_of (entities r) k"

text \<open>\<open>\b(reply|respond|draft.*email|email.*response)\b\<close>\<close>

definition email_reply_re :: regex where
  "email_reply_re =
     Seq WordB (Seq (Group 1
       (Alt (Chars ''reply'')
       (Alt (Chars ''respond'')
       (Alt (Seq (Chars ''draft'') (Seq (Star Dot) (Chars ''email'')))
            (Seq (Chars ''email'') (Seq (Star Dot) (Chars ''response'')))))))
     WordB)"

text \<open>\<open>[\w\.-]+@[\w\.-]+\<close>; group 0 is the whole match.\<close>

definition address_re :: regex where
  "address_re =
     Group 0 (Seq (Plus (InSet [CWord, CChar CHR ''.'', CChar CHR ''-'']))
             (Seq (Atom (Lit CHR ''@''))
                  (Plus (InSet [CWord, CChar CHR ''.'', CChar CHR ''-'']))))"

text \<open>\<open>Subject:\s*(.+?)(?:\n|$)\<close>\<close>

definition subject_re :: regex where
  "subject_re =
     Seq (Chars ''Subject:'') (Seq (Star Space) (Seq (Group 1 (PlusLazy Dot))
       (Alt (Atom (Lit CHR 0x0A)) EndStr)))"

text \<open>\<open>\b(invoice|payment|pay|transfer|amount due)\b\<close>\<close>

definition payment_re :: regex where
  "payment_re =
     Seq WordB (Seq (Group 1
       (Alt (Chars ''invoice'')
       (Alt (Chars ''payment'')
       (Alt (Chars ''pay'')
       (Alt (Chars ''transfer'') (Chars ''amount due''))))))
     WordB)"

text \<open>\<open>\$?(\d+(?:\.\d{2})?)\<close>\<close>

definition amount_re :: regex where
  "amount_re =
     Seq (Opt (Atom (Lit CHR ''$'')))
         (Group 1 (Seq (Plus Digit) (Opt (Seq (Atom (Lit CHR ''.'')) (Times 2 Digit)))))"

text \<open>\<open>invoice\s*#?\s*([A-Z0-9-]+)\<close>\<close>

definition invoice_re :: regex where
  "invoice_re =
     Seq (Chars ''invoice'') (Seq (Star Space) (Seq (Opt (Atom (Lit CHR ''#'')))
       (Seq (Star Space)
         (Group 1 (Plus (InSet [CRange CHR ''A'' CHR ''Z'', CRange CHR ''0'' CHR ''9'',
                                CChar CHR ''-'']))))))"

text \<open>\<open>from\s*:?\s*([^\n]+)|vendor\s*:?\s*([^\n]+)\<close>\<close>

definition vendor_re :: regex where
  "vendor_re =
     Alt (Seq (Chars ''from'') (Seq (Star Space) (Seq (Opt (Atom (Lit CHR '':'')))
            (Seq (Star Space) (Group 1 (Plus (NotInSet [CChar CHR 0x0A])))))))
         (Seq (Chars ''vendor'') (Seq (Star Space) (Seq (Opt (Atom (Lit CHR '':'')))
            (Seq (Star Space) (Group 2 (Plus (NotInSet [CChar CHR 0x0A])))))))"

text \<open>\<open>\b(extract|parse|analyze|summarize)\b\<close>\<close>

definition extraction_re :: regex where
  "extraction_re =
     Seq WordB (Seq (Group 1
       (Alt (Chars ''extract'')
       (Alt (Chars ''parse'')
       (Alt (Chars ''analyze'') (Chars ''summarize'')))))
     WordB)"

text \<open>The three tests of the \<open>if\<close>/\<open>elif\<close> chain, each on the lower-cased content.\<close>

definition email_reply_rule :: "string \<Rightarrow> bool" where
  "email_reply_rule content_lower = (search False email_reply_re content_lower \<noteq> None)"

definition payment_rule :: "string \<Rightarrow> bool" where
  "payment_rule content_lower = (search False payment_re content_lower \<noteq> None)"

definition extraction_rule :: "string \<Rightarrow> bool" where
  "extraction_rule content_lower = (search False extraction_re content_lower \<noteq> None)"

definition initial_results :: intent_result where
  "initial_results =
     \<lparr>intent = unknown, confidence = 0, priority = medium, category = other, entities = [],
      requires_approval = False, approval_reason = None\<rparr>"

text \<open>The body of the first branch: the email reply request.\<close>

definition email_reply_branch :: "string \<Rightarrow> intent_result \<Rightarrow> intent_result" where
  "email_reply_branch content results =
     (let r1 = results\<lparr>intent := email_draft, category := communication, confidence := 8 / 10,
                       requires_approval := True, approval_reason := Some Email_reply_rule\<rparr>;
          r2 = (case findall_first False address_re 0 content of
                  Some e \<Rightarrow> set_entity ''sender'' (Text e) r1
                | None \<Rightarrow> r1)
      in case search True subject_re content of
           Some m \<Rightarrow> set_entity ''subject'' (Text (strip (case group 1 m of Some s \<Rightarrow> s | None \<Rightarrow> []))) r2
         | None \<Rightarrow> r2)"

text \<open>The amount step of the payment branch, with the threshold of 500.\<close>

definition amount_step :: "string \<Rightarrow> intent_result \<Rightarrow> intent_result" where
  "amount_step content r =
     (case findall_first False amount_re 1 content of
        None \<Rightarrow> r
      | Some a \<Rightarrow>
          (let amount = float_of a;
               r1 = set_entity ''amount'' (Number amount) r
           in if amount > 500
              then r1\<lparr>requires_approval := True,
                      approval_reason := Some (Exceeds_threshold amount),
                      priority := high\<rparr>
              else r1))"

definition invoice_step :: "string \<Rightarrow> intent_result \<Rightarrow> intent_result" where
  "invoice_step content r =
     (case search True invoice_re content of
        None \<Rightarrow> r
      | Some m \<Rightarrow> set_entity ''invoice_number'' (Text (case group 1 m of Some s \<Rightarrow> s | None \<Rightarrow> [])) r)"

text \<open>\<open>vendor.group(1) or vendor.group(2)\<close>: the group of the alternative that matched.\<close>

definition vendor_step :: "string \<Rightarrow> intent_result \<Rightarrow> intent_result" where
  "vendor_step content r =
     (case search True vendor_re content of
        None \<Rightarrow> r
      | Some m \<Rightarrow>
          set_entity ''vendor''
            (Text (case group 1 m of
                     Some s \<Rightarrow> s
                   | None \<Rightarrow> (case group 2 m of Some s \<Rightarrow> s | None \<Rightarrow> []))) r)"

definition payment_branch :: "string \<Rightarrow> intent_result \<Rightarrow> intent_result" where
  "payment_branch content results =
     vendor_step content (invoice_step content (amount_step content
       (results\<lparr>intent := payment_request, category := finance, confidence := 9 / 10\<rparr>)))"

definition extraction_branch :: "intent_result \<Rightarrow> intent_result" where
  "extraction_branch results =
     results\<lparr>intent := data_extraction, category := admin, confidence := 7 / 10\<rparr>"

definition analyze_intent :: "string \<Rightarrow> intent_result" where
  "analyze_intent content =
     (let content_lower = lower content
      in if email_reply_rule content_lower then email_reply_branch content initial_results
         else if payment_rule content_lower then payment_branch content initial_results
         else if extraction_rule content_lower then extraction_branch initial_results
         else initial_results)"

text \<open>The amount the payment rule reads: the first number in the content, if any.\<close>

definition first_amount :: "string \<Rightarrow> rat option" where
  "first_amount content = map_option float_of (findall_first False amount_re 1 content)"

section \<open>Paths\<close>

text \<open>
  \<open>PurePath.stem\<close> and \<open>PurePath.suffix\<close> of a file name: the name is split at its last
  dot, unless that dot is the first or the last character.
\<close>

definition last_dot :: "string \<Rightarrow> nat option" where
  "last_dot name =
     (if CHR ''.'' \<in> set name
      then Some (length name - Suc (length (takeWhile (\<lambda>c. c \<noteq> CHR ''.'') (rev name))))
      else None)"

definition stem :: "string \<Rightarrow> string" where
  "stem name =
     (case last_dot name of
        None \<Rightarrow> name
      | Some i \<Rightarrow> if 0 < i \<and> Suc i < length name then take i name else name)"

definition suffix_of :: "string \<Rightarrow> string" where
  "suffix_of name =
     (case last_dot name of
        None \<Rightarrow> []
      | Some i \<Rightarrow> if 0 < i \<and> Suc i < length name then drop i name else [])"

text \<open>\<open>Path.name\<close>: the last component of a path written with \<open>/\<close>.\<close>

definition base_name :: "string \<Rightarrow> string" where
  "base_name path = rev (takeWhile (\<lambda>c. c \<noteq> CHR ''/'') (rev path))"


text \<open>\<open>needle in haystack\<close> on strings.\<close>

fun contains :: "string \<Rightarrow> string \<Rightarrow> bool" where
  "contains needle [] = (needle = [])"
| "contains needle (c # cs) = (take (length needle) (c # cs) = needle \<or> contains needle cs)"

section \<open>The vault of the orchestrator\<close>

text \<open>
  The folders are directories of the vault. A directory is an association list from file
  names to contents, in the order in which the directory is listed. The documents of
  \<open>Needs_Action\<close> and \<open>Done\<close> are files that are read as text; \<open>Plans\<close>, \<open>Pending_Approval\<close>
  and the extraction records of \<open>Logs\<close> hold what the skills write and the orchestrator
  never reads back, kept with the fields the templates are filled with. The daily activity
  log and the error log of \<open>Logs\<close> are kept as the lists of their records, without the
  time stamps.
\<close>

datatype folder = Needs_Action | Done | Logs | Plans | Pending_Approval | Approved | Rejected

datatype filedata = Utf8 string | Undecodable

datatype exn = FileNotFoundError | ValueError | NotImplementedError | PermissionError | OSError

datatype read_error = File_not_found | Decode_failed

datatype description = Payment_of rat string | Extraction_from string | Process_task string

record plan =
  plan_name :: string
  plan_description :: description
  plan_priority :: priority
  plan_intent :: intent
  plan_category :: category
  plan_confidence :: rat
  plan_requires_approval :: bool
  plan_approval_reason :: "approval_reason option"
  plan_tools :: string

datatype draft_kind = Acknowledgment string rat | Generic_reply

record email_draft =
  draft_kind :: draft_kind
  draft_priority :: priority
  draft_to :: string
  draft_subject :: string
  original_subject :: string
  original_body :: string

text \<open>
  The record \<open>extract_data_from_content\<close> computes from a content; its fields are not
  modelled, the record is named by the content it was computed from.
\<close>

datatype extraction = Extraction_of string

datatype details =
    Analysis intent_result
  | Processed intent bool
  | Archived string
  | Counts nat nat nat nat

record activity =
  action :: string
  subject_file :: string
  status :: string
  details :: details

datatype error_entry = Read_task_failed string read_error | Processing_failed string exn

record dashboard =
  needs_action_count :: nat
  pending_count :: nat
  plans_count :: nat
  done_count :: nat

record vault =
  dry_run :: bool
  dirs :: "folder set"
  needs_action :: "(string \<times> filedata) list"
  done_dir :: "(string \<times> filedata) list"
  plans_dir :: "(string \<times> plan) list"
  pending_approval_dir :: "(string \<times> email_draft) list"
  extraction_logs :: "(string \<times> extraction) list"
  activity_log :: "activity list"
  error_log :: "error_entry list"
  dashboard_file :: "dashboard option"

definition mkdir :: "folder \<Rightarrow> vault \<Rightarrow> vault" where
  "mkdir f st = st\<lparr>dirs := insert f (dirs st)\<rparr>"

text \<open>
  \<open>read_file\<close>: the content, or the error status for a missing file and for one that does
  not decode.
\<close>

definition read_file :: "(string \<times> filedata) list \<Rightarrow> string \<Rightarrow> read_error + string" where
  "read_file dir name =
     (case map_of dir name of
        None \<Rightarrow> Inl File_not_found
      | Some Undecodable \<Rightarrow> Inl Decode_failed
      | Some (Utf8 content) \<Rightarrow> Inr content)"

text \<open>
  \<open>write_file\<close> on a path in \<open>Plans\<close> and on a path in \<open>Pending_Approval\<close>: the parent
  directory is made first, the file is written unless \<open>dry_run\<close> is set.
\<close>

definition write_plan :: "string \<Rightarrow> plan \<Rightarrow> vault \<Rightarrow> vault" where
  "write_plan name content st =
     (let st1 = mkdir Plans st
      in if dry_run st1 then st1
         else st1\<lparr>plans_dir := AList.update name content (plans_dir st1)\<rparr>)"

definition write_draft :: "string \<Rightarrow> email_draft \<Rightarrow> vault \<Rightarrow> vault" where
  "write_draft name content st =
     (let st1 = mkdir Pending_Approval st
      in if dry_run st1 then st1
         else st1\<lparr>pending_approval_dir := AList.update name content (pending_approval_dir st1)\<rparr>)"

definition log_error :: "error_entry \<Rightarrow> vault \<Rightarrow> vault" where
  "log_error e st = (let st1 = mkdir Logs st in st1\<lparr>error_log := error_log st1 @ [e]\<rparr>)"

definition log_activity :: "string \<Rightarrow> string \<Rightarrow> string \<Rightarrow> details \<Rightarrow> vault \<Rightarrow> vault" where
  "log_activity a f s d st =
     (let st1 = mkdir Logs st
      in st1\<lparr>activity_log := activity_log st1 @
               [\<lparr>action = a, subject_file = f, status = s, details = d\<rparr>]\<rparr>)"

definition text_entity :: "intent_result \<Rightarrow> string \<Rightarrow> string \<Rightarrow> string" where
  "text_entity analysis k dflt = (case entity_of analysis k of Some (Text s) \<Rightarrow> s | _ \<Rightarrow> dflt)"

definition number_entity :: "intent_result \<Rightarrow> string \<Rightarrow> rat \<Rightarrow> rat" where
  "number_entity analysis k dflt = (case entity_of analysis k of Some (Number a) \<Rightarrow> a | _ \<Rightarrow> dflt)"

definition intent_name :: "intent \<Rightarrow> string" where
  "intent_name i =
     (case i of
        unknown \<Rightarrow> ''unknown''
      | email_draft \<Rightarrow> ''email_draft''
      | payment_request \<Rightarrow> ''payment_request''
      | data_extraction \<Rightarrow> ''data_extraction''
      | payment_acknowledgment \<Rightarrow> ''payment_acknowledgment''
      | general \<Rightarrow> ''general'')"

definition get_tool_for_intent :: "intent \<Rightarrow> string" where
  "get_tool_for_intent i =
     (case i of
        email_draft \<Rightarrow> ''email_drafter''
      | payment_request \<Rightarrow> ''email_drafter, data_extractor''
      | data_extraction \<Rightarrow> ''data_extractor''
      | unknown \<Rightarrow> ''task_planner''
      | _ \<Rightarrow> ''file_processor'')"

text \<open>
  \<open>draft_email_response\<close>; the first three arguments are the \<open>from\<close>, \<open>subject\<close> and \<open>body\<close>
  of \<open>original_email\<close>, \<open>stamp\<close> is the time of the call as the file name prints it.
\<close>

definition draft_email_response ::
  "string \<Rightarrow> string \<Rightarrow> string \<Rightarrow> string \<Rightarrow> intent_result \<Rightarrow> vault \<Rightarrow> vault" where
  "draft_email_response stamp sender subj body analysis st =
     (let draft_content =
            (if intent analysis = payment_acknowledgment
             then (let invoice = text_entity analysis ''invoice_number'' ''UNKNOWN'';
                       amount = number_entity analysis ''amount'' 0
                   in \<lparr>draft_kind = Acknowledgment invoice amount,
                       draft_priority = (if amount > 500 then high else medium),
                       draft_to = sender,
                       draft_subject = ''Re: Invoice '' @ invoice @ '' - Acknowledgment'',
                       original_subject = subj, original_body = body\<rparr>)
             else \<lparr>draft_kind = Generic_reply, draft_priority = medium, draft_to = sender,
                   draft_subject = ''Re: '' @ subj,
                   original_subject = subj, original_body = body\<rparr>)
      in write_draft (''email_draft_'' @ stamp @ ''.md'') draft_content st)"

definition create_task_plan ::
  "string \<Rightarrow> string \<Rightarrow> description \<Rightarrow> intent_result \<Rightarrow> vault \<Rightarrow> vault" where
  "create_task_plan stamp task_name descr analysis st =
     write_plan (''plan_'' @ stamp @ ''.md'')
       \<lparr>plan_name = task_name, plan_description = descr, plan_priority = priority analysis,
        plan_intent = intent analysis, plan_category = category analysis,
        plan_confidence = confidence analysis,
        plan_requires_approval = requires_approval analysis,
        plan_approval_reason =
          (if requires_approval analysis then approval_reason analysis else None),
        plan_tools = get_tool_for_intent (intent analysis)\<rparr> st"

text \<open>
  \<open>extract_data_from_content\<close> writes its record with \<open>open\<close> and makes no directory: the
  write raises when \<open>Logs\<close> is missing.
\<close>

definition extract_data_from_content :: "string \<Rightarrow> string \<Rightarrow> vault \<Rightarrow> exn \<times> vault + vault" where
  "extract_data_from_content stamp content st =
     (if dry_run st then Inr st
      else if Logs \<notin> dirs st then Inl (FileNotFoundError, st)
      else Inr (st\<lparr>extraction_logs :=
                  AList.update (''extraction_'' @ stamp @ ''.json'') (Extraction_of content)
                    (extraction_logs st)\<rparr>))"


definition glob :: "(string \<times> filedata) list \<Rightarrow> string \<Rightarrow> exn + string list" where
  "glob dir pattern =
     (if pattern = [] then Inl ValueError
      else if hd pattern = CHR ''/'' then Inl NotImplementedError
      else Inr (if map_of dir pattern = None then [] else [pattern]))"

text \<open>
  \<open>shutil.move\<close> of a document of \<open>Needs_Action\<close> to the same name in \<open>Done\<close>: it raises
  when the source is absent and when the directory \<open>Done\<close> is, and replaces a document
  of that name.
\<close>

definition shutil_move :: "string \<Rightarrow> vault \<Rightarrow> exn \<times> vault + vault" where
  "shutil_move name st =
     (case map_of (needs_action st) name of
        None \<Rightarrow> Inl (FileNotFoundError, st)
      | Some d \<Rightarrow>
          if Done \<notin> dirs st then Inl (FileNotFoundError, st)
          else Inr (st\<lparr>needs_action := AList.delete name (needs_action st),
                       done_dir := AList.update name d (done_dir st)\<rparr>))"

fun move_all :: "string list \<Rightarrow> vault \<Rightarrow> exn \<times> vault + vault" where
  "move_all [] st = Inr st"
| "move_all (pf # pfs) st =
     (case shutil_move pf st of Inl x \<Rightarrow> Inl x | Inr st1 \<Rightarrow> move_all pfs st1)"

text \<open>\<open>original_name:\s*(.+)\<close> and \<open>source_path:\s*(.+)\<close>\<close>

definition original_name_re :: regex where
  "original_name_re = Seq (Chars ''original_name:'') (Seq (Star Space) (Group 1 (Plus Dot)))"

definition source_path_re :: regex where
  "source_path_re = Seq (Chars ''source_path:'') (Seq (Star Space) (Group 1 (Plus Dot)))"

definition front_matter_field :: "regex \<Rightarrow> string \<Rightarrow> string option" where
  "front_matter_field r task_content =
     (case search False r task_content of
        None \<Rightarrow> None
      | Some m \<Rightarrow> Some (strip (case group 1 m of Some s \<Rightarrow> s | None \<Rightarrow> [])))"

text \<open>\<open>if source_file:\<close> holds for a string that is not empty.\<close>

definition truthy :: "string option \<Rightarrow> bool" where
  "truthy s = (case s of None \<Rightarrow> False | Some x \<Rightarrow> x \<noteq> [])"

text \<open>Step 2: the content of the dropped file, or the empty string.\<close>

definition read_source :: "string option \<Rightarrow> string \<Rightarrow> vault \<Rightarrow> exn + string" where
  "read_source source_file task_name st =
     (if truthy source_file
      then (case glob (needs_action st) task_name of
              Inl e \<Rightarrow> Inl e
            | Inr [] \<Rightarrow> Inr []
            | Inr (pf # _) \<Rightarrow>
                (case read_file (needs_action st) pf of
                   Inr content \<Rightarrow> Inr content
                 | Inl _ \<Rightarrow> Inr []))
      else Inr [])"

text \<open>Step 4: the dispatch on the intent.\<close>

definition route ::
  "string \<Rightarrow> string \<Rightarrow> string \<Rightarrow> string \<Rightarrow> intent_result \<Rightarrow> vault \<Rightarrow> exn \<times> vault + vault" where
  "route stamp task_name task_content source_content analysis st =
     (let analysis_content = task_content @ [CHR 0x0A] @ source_content
      in if intent analysis = email_draft then
           Inr (draft_email_response stamp
                  (text_entity analysis ''sender'' ''unknown@example.com'')
                  (text_entity analysis ''subject'' ''No Subject'')
                  (if source_content \<noteq> [] then take 500 source_content else take 500 task_content)
                  (analysis\<lparr>intent := (if contains ''invoice'' (lower analysis_content)
                                        then payment_acknowledgment else general)\<rparr>)
                  st)
         else if intent analysis = payment_request then
           (let st1 = create_task_plan stamp
                        (''Payment Processing - '' @ text_entity analysis ''invoice_number'' ''Unknown'')
                        (Payment_of (number_entity analysis ''amount'' 0)
                                    (text_entity analysis ''vendor'' ''Unknown''))
                        analysis st
            in Inr (draft_email_response stamp
                      (text_entity analysis ''vendor'' ''vendor@example.com'')
                      (''Invoice '' @ text_entity analysis ''invoice_number'' ''Unknown'')
                      (if source_content \<noteq> [] then take 500 source_content else ''Invoice received'')
                      (analysis\<lparr>intent := payment_acknowledgment\<rparr>)
                      st1))
         else if intent analysis = data_extraction then
           (case extract_data_from_content stamp
                   (if source_content \<noteq> [] then source_content else analysis_content) st of
              Inl x \<Rightarrow> Inl x
            | Inr st1 \<Rightarrow>
                Inr (create_task_plan stamp (''Data Extraction - '' @ task_name)
                       (Extraction_from task_name) analysis st1))
         else Inr (create_task_plan stamp task_name (Process_task task_name) analysis st))"

text \<open>Step 6: the move to \<open>Done\<close>, skipped in a dry run.\<close>

definition archive :: "string \<Rightarrow> string option \<Rightarrow> string \<Rightarrow> vault \<Rightarrow> exn \<times> vault + vault" where
  "archive task_file source_file task_name st =
     (if dry_run st then Inr st
      else case shutil_move task_file st of
             Inl x \<Rightarrow> Inl x
           | Inr st1 \<Rightarrow>
               (case (if truthy source_file
                      then (case glob (needs_action st1) task_name of
                              Inl e \<Rightarrow> Inl (e, st1)
                            | Inr possible_files \<Rightarrow>
                                move_all (filter (\<lambda>pf. pf \<noteq> task_file) possible_files) st1)
                      else Inr st1) of
                  Inl x \<Rightarrow> Inl x
                | Inr st2 \<Rightarrow>
                    Inr (log_activity ''task_archived'' task_file ''moved_to_done''
                           (Archived task_file) st2)))"

text \<open>
  The body of the \<open>try\<close> of \<open>process_task_file\<close> after the task file is read. \<open>Inl\<close> is an
  exception that leaves the body, with the vault as it is at that moment.
\<close>

definition task_steps :: "string \<Rightarrow> string \<Rightarrow> string \<Rightarrow> vault \<Rightarrow> exn \<times> vault + vault" where
  "task_steps stamp task_file task_content st =
     (let original_name = front_matter_field original_name_re task_content;
          source_file = front_matter_field source_path_re task_content;
          task_name = (case original_name of Some n \<Rightarrow> n | None \<Rightarrow> stem task_file)
      in case read_source source_file task_name st of
           Inl e \<Rightarrow> Inl (e, st)
         | Inr source_content \<Rightarrow>
             (let analysis = analyze_intent (task_content @ [CHR 0x0A] @ source_content);
                  st1 = log_activity ''intent_analyzed'' task_file (intent_name (intent analysis))
                          (Analysis analysis) st
              in case route stamp task_name task_content source_content analysis st1 of
                   Inl x \<Rightarrow> Inl x
                 | Inr st2 \<Rightarrow>
                     archive task_file source_file task_name
                       (log_activity ''task_processed'' task_file ''completed''
                          (Processed (intent analysis) (requires_approval analysis)) st2)))"

text \<open>
  \<open>process_task_file\<close>: a task file that cannot be read is logged and left; an exception
  of the steps is caught and logged.
\<close>

definition process_task_file :: "string \<Rightarrow> string \<Rightarrow> vault \<Rightarrow> vault" where
  "process_task_file stamp task_file st =
     (case read_file (needs_action st) task_file of
        Inl err \<Rightarrow> log_error (Read_task_failed task_file err) st
      | Inr task_content \<Rightarrow>
          (case task_steps stamp task_file task_content st of
             Inl (e, st1) \<Rightarrow> log_error (Processing_failed task_file e) st1
           | Inr st1 \<Rightarrow> st1))"





section \<open>The filesystem watcher\<close>

text \<open>
  The drop folder changes under the watcher, so what the watcher sees of a dropped file
  comes with each event: the file as \<open>stat\<close> finds it when the fingerprint is taken, and
  as it is after the settle delay (\<open>None\<close> is a file that does not exist), the reading of
  \<open>time.time()\<close> and of \<open>datetime.now().isoformat()\<close>. Paths are absolute. What the file
  system answers when the task is created comes with the event as well: \<open>write_fault\<close> is
  the exception that \<open>open\<close> or \<open>f.write\<close> raises on the task document, with the number of
  characters that reached the file before it (\<open>None\<close> when \<open>open\<close> raised and no file was
  made), and \<open>copy_fault\<close> is the exception that \<open>shutil.copy2\<close> raises, with what it left
  at the destination (\<open>None\<close> when it raised before the destination was opened, as on a
  dropped file that cannot be read). No fault is a write, or a copy, that succeeds.
\<close>

datatype event_kind = created | modified | moved | poll | scan

record file_stat =
  st_size :: nat
  st_mtime :: rat
  st_data :: filedata

record fs_event =
  kind :: event_kind
  src_path :: string
  now :: rat
  seen :: "file_stat option"
  settled :: "file_stat option"
  timestamp :: string
  write_fault :: "(exn \<times> nat option) option"
  copy_fault :: "(exn \<times> filedata option) option"

datatype log_line =
    Detected event_kind string
  | Poll_found string
  | Scan_processing string
  | Ignored string
  | Skip_processed string
  | Disappeared string
  | Skip_empty string
  | Processing string nat event_kind
  | Dry_run_task string
  | Dry_run_copy string
  | Task_created string
  | File_copied string
  | Log_record event_kind string string nat bool
  | Error_line string exn
  | Error_record string exn

text \<open>
  The state of the watcher process: the configuration flag, the global set of
  fingerprints, the debounce times of the handler, the folder \<open>Needs_Action\<close> (whether it
  exists, and its files), and the lines the logger has printed.
\<close>

record watcher =
  DRY_RUN :: bool
  PROCESSED_FILES :: "(string \<times> nat \<times> rat) set"
  file_timers :: "(string \<times> rat) list"
  inbox_exists :: bool
  inbox :: "(string \<times> filedata) list"
  log_lines :: "log_line list"

definition SUPPORTED_EXTENSIONS :: "string list" where
  "SUPPORTED_EXTENSIONS = [''.txt'', ''.pdf'', ''.doc'', ''.docx'', ''.md'']"

definition supported :: "string \<Rightarrow> bool" where
  "supported file_path = (lower (suffix_of (base_name file_path)) \<in> set SUPPORTED_EXTENSIONS)"

definition logger :: "log_line \<Rightarrow> watcher \<Rightarrow> watcher" where
  "logger l st = st\<lparr>log_lines := log_lines st @ [l]\<rparr>"

text \<open>\<open>str(n)\<close> for a size.\<close>

fun show_nat :: "nat \<Rightarrow> string" where
  "show_nat n =
     (if n < 10 then [''0123456789'' ! n]
      else show_nat (n div 10) @ [''0123456789'' ! (n mod 10)])"

text \<open>\<open>timestamp.replace(':', '-').replace('.', '-')\<close>\<close>

definition safe_timestamp :: "string \<Rightarrow> string" where
  "safe_timestamp ts = map (\<lambda>c. if c = CHR '':'' \<or> c = CHR ''.'' then CHR ''-'' else c) ts"

definition task_filename :: "string \<Rightarrow> string" where
  "task_filename ts = ''task_'' @ safe_timestamp ts @ ''.md''"

text \<open>The task document, as the template of \<open>process_file\<close> prints it.\<close>

definition task_content :: "string \<Rightarrow> string \<Rightarrow> nat \<Rightarrow> string \<Rightarrow> string" where
  "task_content original_name file_path file_size ts =
     ''---\<newline>type: file_drop\<newline>original_name: '' @ original_name @
     ''\<newline>source_path: '' @ file_path @
     ''\<newline>size: '' @ show_nat file_size @
     ''\<newline>detected: '' @ ts @
     ''\<newline>priority: medium\<newline>status: pending\<newline>---\<newline>\<newline># File Dropped: '' @ original_name @
     ''\<newline>\<newline>A new file has been dropped in the Drop_Folder and requires processing.\<newline>\<newline>**File Details:**\<newline>- Name: '' @ original_name @
     ''\<newline>- Size: '' @ show_nat file_size @ '' bytes\<newline>- Detected: '' @ ts @
     ''\<newline>- Source: '' @ file_path @
     ''\<newline>\<newline>**Action Required:**\<newline>Please review and process this file.\<newline>''"

text \<open>
  The creation of the task, the branch on \<open>DRY_RUN\<close>. In a live run \<open>open\<close> raises when the
  folder \<open>Needs_Action\<close> is missing, before anything is written. A fault of \<open>open\<close> or of the
  write leaves the folder with what was written of the task document. After the task
  document is written and the success line printed, \<open>shutil.copy2\<close> can still raise: the
  task document stays, and the destination holds what the copy left there.
\<close>

definition create_task :: "fs_event \<Rightarrow> file_stat \<Rightarrow> watcher \<Rightarrow> exn \<times> watcher + watcher" where
  "create_task ev f st =
     (let file_path = src_path ev;
          original_name = base_name file_path;
          ts = timestamp ev;
          content = task_content original_name file_path (st_size f) ts
      in if DRY_RUN st
         then Inr (logger (Dry_run_copy original_name) (logger (Dry_run_task (task_filename ts)) st))
         else if \<not> inbox_exists st then Inl (FileNotFoundError, st)
         else case write_fault ev of
                Some (e, None) \<Rightarrow> Inl (e, st)
              | Some (e, Some n) \<Rightarrow>
                  Inl (e, st\<lparr>inbox := AList.update (task_filename ts) (Utf8 (take n content))
                                       (inbox st)\<rparr>)
              | None \<Rightarrow>
                  (let st1 = logger (Task_created (task_filename ts))
                               (st\<lparr>inbox := AList.update (task_filename ts) (Utf8 content)
                                                (inbox st)\<rparr>)
                   in case copy_fault ev of
                        Some (e, None) \<Rightarrow> Inl (e, st1)
                      | Some (e, Some d) \<Rightarrow>
                          Inl (e, st1\<lparr>inbox := AList.update original_name d (inbox st1)\<rparr>)
                      | None \<Rightarrow>
                          Inr (logger (File_copied original_name)
                                 (st1\<lparr>inbox := AList.update original_name (st_data f)
                                                  (inbox st1)\<rparr>))))"

text \<open>The body of the \<open>try\<close> of \<open>process_file\<close>.\<close>

definition process_file_steps :: "fs_event \<Rightarrow> watcher \<Rightarrow> exn \<times> watcher + watcher" where
  "process_file_steps ev st =
     (let file_path = src_path ev
      in if \<not> supported file_path
         then Inr (logger (Ignored (suffix_of (base_name file_path))) st)
         else case seen ev of
                None \<Rightarrow> Inl (FileNotFoundError, st)
              | Some s \<Rightarrow>
                  (let file_key = (file_path, st_size s, st_mtime s)
                   in if file_key \<in> PROCESSED_FILES st
                      then Inr (logger (Skip_processed (base_name file_path)) st)
                      else case settled ev of
                             None \<Rightarrow> Inr (logger (Disappeared file_path) st)
                           | Some f \<Rightarrow>
                               if st_size f = 0
                               then Inr (logger (Skip_empty (base_name file_path)) st)
                               else (case create_task ev f
                                            (logger (Processing (base_name file_path) (st_size f) (kind ev)) st) of
                                       Inl x \<Rightarrow> Inl x
                                     | Inr st1 \<Rightarrow>
                                         (let st2 = logger (Log_record (kind ev) file_path
                                                      (task_filename (timestamp ev)) (st_size f) (DRY_RUN st1)) st1
                                          in Inr (st2\<lparr>PROCESSED_FILES :=
                                                     insert file_key (PROCESSED_FILES st2)\<rparr>)))))"

definition process_file :: "fs_event \<Rightarrow> watcher \<Rightarrow> watcher" where
  "process_file ev st =
     (case process_file_steps ev st of
        Inl (e, st1) \<Rightarrow> logger (Error_record (src_path ev) e) (logger (Error_line (src_path ev) e) st1)
      | Inr st1 \<Rightarrow> st1)"

definition on_created :: "fs_event \<Rightarrow> watcher \<Rightarrow> watcher" where
  "on_created ev st = process_file ev (logger (Detected created (base_name (src_path ev))) st)"

text \<open>\<open>self.file_timers.get(str(file_path), 0)\<close>\<close>

definition last_time :: "watcher \<Rightarrow> string \<Rightarrow> rat" where
  "last_time st file_path = (case map_of (file_timers st) file_path of Some t \<Rightarrow> t | None \<Rightarrow> 0)"

definition on_modified :: "fs_event \<Rightarrow> watcher \<Rightarrow> watcher" where
  "on_modified ev st =
     (if \<not> supported (src_path ev) then st
      else if now ev - last_time st (src_path ev) > 2
      then process_file ev
             ((logger (Detected modified (base_name (src_path ev))) st)
                \<lparr>file_timers := AList.update (src_path ev) (now ev) (file_timers st)\<rparr>)
      else st)"

definition on_moved :: "fs_event \<Rightarrow> watcher \<Rightarrow> watcher" where
  "on_moved ev st = process_file ev (logger (Detected moved (base_name (src_path ev))) st)"

text \<open>
  One file of the periodic poll of \<open>main\<close>: a supported file whose fingerprint is not in
  the set is processed; an exception of \<open>stat\<close> is passed over.
\<close>

definition poll_file :: "fs_event \<Rightarrow> watcher \<Rightarrow> watcher" where
  "poll_file ev st =
     (if \<not> supported (src_path ev) then st
      else case seen ev of
             None \<Rightarrow> st
           | Some s \<Rightarrow>
               if (src_path ev, st_size s, st_mtime s) \<in> PROCESSED_FILES st then st
               else process_file ev (logger (Poll_found (base_name (src_path ev))) st))"

text \<open>One file of \<open>scan_existing_files\<close>.\<close>

definition scan_file :: "fs_event \<Rightarrow> watcher \<Rightarrow> watcher" where
  "scan_file ev st =
     (if seen ev = None \<or> \<not> supported (src_path ev) then st
      else process_file ev (logger (Scan_processing (base_name (src_path ev))) st))"

definition handle_event :: "fs_event \<Rightarrow> watcher \<Rightarrow> watcher" where
  "handle_event ev st =
     (case kind ev of
        created \<Rightarrow> on_created ev st
      | modified \<Rightarrow> on_modified ev st
      | moved \<Rightarrow> on_moved ev st
      | poll \<Rightarrow> poll_file ev st
      | scan \<Rightarrow> scan_file ev st)"

text \<open>The events the watcher handles, one after the other.\<close>

fun run :: "fs_event list \<Rightarrow> watcher \<Rightarrow> watcher" where
  "run [] st = st"
| "run (ev # evs) st = run evs (handle_event ev st)"

text \<open>Counters over the log: the tasks created, and the triggers of modify events.\<close>

definition tasks_created :: "watcher \<Rightarrow> nat" where
  "tasks_created st = length (filter (\<lambda>l. case l of Task_created _ \<Rightarrow> True | _ \<Rightarrow> False) (log_lines st))"

definition modify_triggers :: "watcher \<Rightarrow> nat" where
  "modify_triggers st =
     length (filter (\<lambda>l. case l of Detected modified _ \<Rightarrow> True | _ \<Rightarrow> False) (log_lines st))"

section \<open>Predicates the properties are stated with\<close>

text \<open>
  Two vaults hold the same documents: every folder of documents, and the dashboard, is
  the same in both. The directories that exist and the two logs are left out.
\<close>

definition same_documents :: "vault \<Rightarrow> vault \<Rightarrow> bool" where
  "same_documents st st' =
     (needs_action st' = needs_action st \<and> done_dir st' = done_dir st \<and>
      plans_dir st' = plans_dir st \<and> pending_approval_dir st' = pending_approval_dir st \<and>
      extraction_logs st' = extraction_logs st \<and> dashboard_file st' = dashboard_file st)"

text \<open>The record that \<open>process_task_file\<close> logs when it has moved a task to \<open>Done\<close>.\<close>

definition archived_record :: "string \<Rightarrow> activity" where
  "archived_record task_file =
     \<lparr>action = ''task_archived'', subject_file = task_file, status = ''moved_to_done'',
      details = Archived task_file\<rparr>"



text \<open>
  The fingerprint \<open>file_key\<close> of an event whose file exists, and the events that
  \<open>process_file\<close> takes to the end of the task-creation path: the extension is supported,
  the file exists, its fingerprint is new, the file is still there after the settle delay
  and is not empty, and either the run is dry or the folder \<open>Needs_Action\<close> exists and
  neither the write of the task nor the copy of the file raises.
\<close>

definition file_key :: "fs_event \<Rightarrow> file_stat \<Rightarrow> string \<times> nat \<times> rat" where
  "file_key ev s = (src_path ev, st_size s, st_mtime s)"

definition accepted :: "fs_event \<Rightarrow> watcher \<Rightarrow> bool" where
  "accepted ev st =
     (supported (src_path ev) \<and>
      (case seen ev of None \<Rightarrow> False | Some s \<Rightarrow> file_key ev s \<notin> PROCESSED_FILES st) \<and>
      (case settled ev of None \<Rightarrow> False | Some f \<Rightarrow> st_size f \<noteq> 0) \<and>
      (DRY_RUN st \<or> inbox_exists st \<and> write_fault ev = None \<and> copy_fault ev = None))"


definition raises_after_open :: "fs_event \<Rightarrow> bool" where
  "raises_after_open ev =
     (case write_fault ev of
        Some (e, written) \<Rightarrow> written \<noteq> None
      | None \<Rightarrow> copy_fault ev \<noteq> None)"

text \<open>
  The vault an attempt leaves, whether it ends or raises; and two relations between the
  vault before a step and the vault after it. \<open>kept\<close>: the step leaves the flag and the
  error log alone, removes no directory and, in a dry run, leaves every document alone.
  \<open>quiet\<close>: it also leaves the activity log alone.
\<close>

definition outcome :: "exn \<times> vault + vault \<Rightarrow> vault" where
  "outcome r = (case r of Inl (e, st) \<Rightarrow> st | Inr st \<Rightarrow> st)"

definition kept :: "vault \<Rightarrow> vault \<Rightarrow> bool" where
  "kept st st' =
     (dry_run st' = dry_run st \<and> error_log st' = error_log st \<and> dirs st \<subseteq> dirs st' \<and>
      (if dry_run st then same_documents st st' else True))"

definition quiet :: "vault \<Rightarrow> vault \<Rightarrow> bool" where
  "quiet st st' = (kept st st' \<and> activity_log st' = activity_log st)"

section \<open>Sample inputs\<close>

text \<open>
  A vault in live mode without the folders \<open>Plans\<close> and \<open>Pending_Approval\<close>, holding a task
  whose text asks for a payment, a task whose \<open>original_name\<close> is an absolute path, and a
  task with no keyword.
\<close>

definition sample_vault :: vault where
  "sample_vault =
     \<lparr>dry_run = False, dirs = {Needs_Action, Done, Logs},
      needs_action =
        [(''t.md'', Utf8 ''pay Bob''),
         (''u.md'', Utf8 ''original_name: /abs\<newline>source_path: /drop/x.txt''),
         (''v.md'', Utf8 ''hello'')],
      done_dir = [], plans_dir = [], pending_approval_dir = [], extraction_logs = [],
      activity_log = [], error_log = [], dashboard_file = None\<rparr>"

text \<open>A watcher in live mode that has seen nothing, a dropped file, and events on it.\<close>

definition sample_watcher :: watcher where
  "sample_watcher =
     \<lparr>DRY_RUN = False, PROCESSED_FILES = {}, file_timers = [], inbox_exists = True,
      inbox = [], log_lines = []\<rparr>"

definition sample_file :: file_stat where
  "sample_file = \<lparr>st_size = 7, st_mtime = 999, st_data = Utf8 ''pay Bob''\<rparr>"

definition sample_event :: "event_kind \<Rightarrow> string \<Rightarrow> rat \<Rightarrow> fs_event" where
  "sample_event k p t =
     \<lparr>kind = k, src_path = p, now = t, seen = Some sample_file, settled = Some sample_file,
      timestamp = ''2026-01-02T03:04:05'', write_fault = None, copy_fault = None\<rparr>"

section \<open>Facts about the analyzer\<close>

lemma set_entity_fields [simp]:
  "intent (set_entity k v r) = intent r"
  "priority (set_entity k v r) = priority r"
  "requires_approval (set_entity k v r) = requires_approval r"
  "category (set_entity k v r) = category r"
  "confidence (set_entity k v r) = confidence r"
  "approval_reason (set_entity k v r) = approval_reason r"
  by (simp_all add: set_entity_def)

lemma entity_of_set_entity [simp]:
  "entity_of (set_entity k v r) k' = (if k' = k then Some v else entity_of r k')"
  by (simp add: set_entity_def entity_of_def update_conv')

lemma entity_of_other_fields [simp]:
  "entity_of (r\<lparr>intent := i\<rparr>) k = entity_of r k"
  "entity_of (r\<lparr>confidence := cf\<rparr>) k = entity_of r k"
  "entity_of (r\<lparr>priority := p\<rparr>) k = entity_of r k"
  "entity_of (r\<lparr>category := ca\<rparr>) k = entity_of r k"
  "entity_of (r\<lparr>requires_approval := b\<rparr>) k = entity_of r k"
  "entity_of (r\<lparr>approval_reason := ar\<rparr>) k = entity_of r k"
  by (simp_all add: entity_of_def)

lemma entity_of_initial [simp]: "entity_of initial_results k = None"
  by (simp add: entity_of_def initial_results_def)

lemma invoice_step_fields [simp]:
  "intent (invoice_step c r) = intent r"
  "priority (invoice_step c r) = priority r"
  "requires_approval (invoice_step c r) = requires_approval r"
  "entity_of (invoice_step c r) ''amount'' = entity_of r ''amount''"
  by (simp_all add: invoice_step_def split: option.splits)

lemma vendor_step_fields [simp]:
  "intent (vendor_step c r) = intent r"
  "priority (vendor_step c r) = priority r"
  "requires_approval (vendor_step c r) = requires_approval r"
  "entity_of (vendor_step c r) ''amount'' = entity_of r ''amount''"
  by (simp_all add: vendor_step_def split: option.splits)

lemma amount_step_intent [simp]: "intent (amount_step c r) = intent r"
  by (simp add: amount_step_def Let_def split: option.splits)

lemma intent_email_reply_branch [simp]: "intent (email_reply_branch c r) = email_draft"
  by (simp add: email_reply_branch_def Let_def split: option.splits)

lemma requires_approval_email_reply_branch [simp]:
  "requires_approval (email_reply_branch c r)"
  by (simp add: email_reply_branch_def Let_def split: option.splits)

lemma intent_payment_branch [simp]: "intent (payment_branch c r) = payment_request"
  by (simp add: payment_branch_def)

lemma intent_analyze_intent:
  "intent (analyze_intent c) =
     (if email_reply_rule (lower c) then email_draft
      else if payment_rule (lower c) then payment_request
      else if extraction_rule (lower c) then data_extraction
      else unknown)"
  by (simp add: analyze_intent_def Let_def extraction_branch_def initial_results_def)

lemma payment_request_iff:
  "intent (analyze_intent c) = payment_request \<longleftrightarrow>
     \<not> email_reply_rule (lower c) \<and> payment_rule (lower c)"
  by (simp add: intent_analyze_intent)

lemma analyze_intent_payment:
  assumes "\<not> email_reply_rule (lower c)" and "payment_rule (lower c)"
  shows "analyze_intent c = payment_branch c initial_results"
  using assms by (simp add: analyze_intent_def Let_def)

lemma analyze_intent_email:
  assumes "email_reply_rule (lower c)"
  shows "analyze_intent c = email_reply_branch c initial_results"
  using assms by (simp add: analyze_intent_def Let_def)

lemma amount_step_some:
  assumes "first_amount c = Some a"
  shows "entity_of (amount_step c r) ''amount'' = Some (Number a)"
    and "requires_approval (amount_step c r) = (if a > 500 then True else requires_approval r)"
    and "priority (amount_step c r) = (if a > 500 then high else priority r)"
  using assms
  by (auto simp add: amount_step_def first_amount_def Let_def split: option.splits)

lemma amount_step_none:
  assumes "first_amount c = None"
  shows "amount_step c r = r"
  using assms by (simp add: amount_step_def first_amount_def split: option.splits)

lemma payment_branch_amount:
  assumes "first_amount c = Some a"
  shows "entity_of (payment_branch c initial_results) ''amount'' = Some (Number a)"
    and "requires_approval (payment_branch c initial_results) = (a > 500)"
    and "priority (payment_branch c initial_results) = (if a > 500 then high else medium)"
  using assms
  by (simp_all add: payment_branch_def amount_step_some initial_results_def)

lemma payment_branch_no_amount:
  assumes "first_amount c = None"
  shows "entity_of (payment_branch c initial_results) ''amount'' = None"
    and "\<not> requires_approval (payment_branch c initial_results)"
    and "priority (payment_branch c initial_results) = medium"
  using assms
  by (simp_all add: payment_branch_def amount_step_none)
     (simp_all add: initial_results_def)

subsection \<open>Evaluations\<close>

lemma float_of_500: "float_of ''500.00'' = 500"
  by (simp add: float_of_def digits_val_def digit_val_def)

lemma float_of_500_01: "float_of ''500.01'' = 50001 / 100"
  by (simp add: float_of_def digits_val_def digit_val_def)

lemma pay_500_rules:
  "\<not> email_reply_rule (lower ''Please pay $500.00 to Bob'')"
  "payment_rule (lower ''Please pay $500.00 to Bob'')"
  by code_simp+

lemma pay_500_amount: "first_amount ''Please pay $500.00 to Bob'' = Some 500"
proof -
  have "findall_first False amount_re 1 ''Please pay $500.00 to Bob'' = Some ''500.00''"
    by code_simp
  then show ?thesis by (simp add: first_amount_def float_of_500 del: One_nat_def)
qed

lemma pay_500_01_rules:
  "\<not> email_reply_rule (lower ''Please pay $500.01 to Bob'')"
  "payment_rule (lower ''Please pay $500.01 to Bob'')"
  by code_simp+

lemma pay_500_01_amount: "first_amount ''Please pay $500.01 to Bob'' = Some (50001 / 100)"
proof -
  have "findall_first False amount_re 1 ''Please pay $500.01 to Bob'' = Some ''500.01''"
    by code_simp
  then show ?thesis by (simp add: first_amount_def float_of_500_01 del: One_nat_def)
qed

lemma extract_invoice_rules:
  "\<not> email_reply_rule (lower ''Extract the invoice total'')"
  "payment_rule (lower ''Extract the invoice total'')"
  "extraction_rule (lower ''Extract the invoice total'')"
  by code_simp+

lemma reply_extract_invoice_rules:
  "email_reply_rule (lower ''Please reply: extract the invoice total'')"
  "payment_rule (lower ''Please reply: extract the invoice total'')"
  "extraction_rule (lower ''Please reply: extract the invoice total'')"
  by code_simp+

lemma overdue_rules:
  "\<not> email_reply_rule (lower ''Payment is overdue'')"
  "payment_rule (lower ''Payment is overdue'')"
  "first_amount ''Payment is overdue'' = None"
  by code_simp+

lemma reply_invoice_rules:
  "email_reply_rule (lower ''Please reply about the invoice'')"
  "payment_rule (lower ''Please reply about the invoice'')"
  "first_amount ''Please reply about the invoice'' = None"
  by code_simp+

section \<open>Facts about the orchestrator\<close>

lemma log_activity_fields [simp]:
  "dry_run (log_activity a f s d st) = dry_run st"
  "needs_action (log_activity a f s d st) = needs_action st"
  "done_dir (log_activity a f s d st) = done_dir st"
  "plans_dir (log_activity a f s d st) = plans_dir st"
  "pending_approval_dir (log_activity a f s d st) = pending_approval_dir st"
  "extraction_logs (log_activity a f s d st) = extraction_logs st"
  "dashboard_file (log_activity a f s d st) = dashboard_file st"
  "error_log (log_activity a f s d st) = error_log st"
  "dirs (log_activity a f s d st) = insert Logs (dirs st)"
  "activity_log (log_activity a f s d st) =
     activity_log st @ [\<lparr>action = a, subject_file = f, status = s, details = d\<rparr>]"
  by (simp_all add: log_activity_def mkdir_def Let_def)

lemma log_error_fields [simp]:
  "dry_run (log_error e st) = dry_run st"
  "needs_action (log_error e st) = needs_action st"
  "done_dir (log_error e st) = done_dir st"
  "plans_dir (log_error e st) = plans_dir st"
  "pending_approval_dir (log_error e st) = pending_approval_dir st"
  "extraction_logs (log_error e st) = extraction_logs st"
  "dashboard_file (log_error e st) = dashboard_file st"
  "activity_log (log_error e st) = activity_log st"
  "dirs (log_error e st) = insert Logs (dirs st)"
  "error_log (log_error e st) = error_log st @ [e]"
  by (simp_all add: log_error_def mkdir_def Let_def)

lemma write_plan_fields [simp]:
  "dry_run (write_plan n c st) = dry_run st"
  "needs_action (write_plan n c st) = needs_action st"
  "done_dir (write_plan n c st) = done_dir st"
  "pending_approval_dir (write_plan n c st) = pending_approval_dir st"
  "extraction_logs (write_plan n c st) = extraction_logs st"
  "dashboard_file (write_plan n c st) = dashboard_file st"
  "activity_log (write_plan n c st) = activity_log st"
  "error_log (write_plan n c st) = error_log st"
  "dirs (write_plan n c st) = insert Plans (dirs st)"
  "plans_dir (write_plan n c st) =
     (if dry_run st then plans_dir st else AList.update n c (plans_dir st))"
  by (simp_all add: write_plan_def mkdir_def Let_def)

lemma write_draft_fields [simp]:
  "dry_run (write_draft n c st) = dry_run st"
  "needs_action (write_draft n c st) = needs_action st"
  "done_dir (write_draft n c st) = done_dir st"
  "plans_dir (write_draft n c st) = plans_dir st"
  "extraction_logs (write_draft n c st) = extraction_logs st"
  "dashboard_file (write_draft n c st) = dashboard_file st"
  "activity_log (write_draft n c st) = activity_log st"
  "error_log (write_draft n c st) = error_log st"
  "dirs (write_draft n c st) = insert Pending_Approval (dirs st)"
  "pending_approval_dir (write_draft n c st) =
     (if dry_run st then pending_approval_dir st else AList.update n c (pending_approval_dir st))"
  by (simp_all add: write_draft_def mkdir_def Let_def)

lemma kept_refl [simp]: "kept st st"
  by (simp add: kept_def same_documents_def)

lemma kept_trans: "kept a b \<Longrightarrow> kept b c \<Longrightarrow> kept a c"
  by (auto simp add: kept_def same_documents_def split: if_splits)

lemma quiet_refl [simp]: "quiet st st"
  by (simp add: quiet_def)

lemma quiet_trans: "quiet a b \<Longrightarrow> quiet b c \<Longrightarrow> quiet a c"
  by (auto simp add: quiet_def intro: kept_trans)

lemma quiet_kept: "quiet a b \<Longrightarrow> kept a b"
  by (simp add: quiet_def)

lemma kept_log_activity [simp]: "kept st (log_activity a f s d st)"
  by (auto simp add: kept_def same_documents_def)

lemma quiet_write [simp]:
  "quiet st (write_plan n c st)"
  "quiet st (write_draft n dc st)"
  by (auto simp add: quiet_def kept_def same_documents_def)

lemma quiet_draft [simp]: "quiet st (draft_email_response stamp sender subj body an st)"
  by (simp add: draft_email_response_def Let_def)

lemma quiet_plan [simp]: "quiet st (create_task_plan stamp tn descr an st)"
  by (simp add: create_task_plan_def)

lemma quiet_plan_draft [simp]:
  "quiet st (draft_email_response stamp sender subj body an'
              (create_task_plan stamp' tn descr an st))"
  by (rule quiet_trans [OF quiet_plan quiet_draft])

lemma quiet_extract: "quiet st (outcome (extract_data_from_content stamp content st))"
  by (auto simp add: extract_data_from_content_def outcome_def quiet_def kept_def
      same_documents_def)

lemma extract_total:
  "Logs \<in> dirs st \<Longrightarrow> \<exists>st'. extract_data_from_content stamp content st = Inr st'"
  by (simp add: extract_data_from_content_def)

lemma outcome_simps [simp]:
  "outcome (Inr st) = st"
  "outcome (Inl (e, st)) = st"
  by (simp_all add: outcome_def)

lemma quiet_route: "quiet st (outcome (route stamp tn tc sc an st))"
proof -
  consider (email) "intent an = email_draft"
    | (payment) "intent an \<noteq> email_draft" "intent an = payment_request"
    | (extraction) "intent an \<noteq> email_draft" "intent an \<noteq> payment_request"
        "intent an = data_extraction"
    | (default) "intent an \<noteq> email_draft" "intent an \<noteq> payment_request"
        "intent an \<noteq> data_extraction"
    by blast
  then show ?thesis
  proof cases
    case email
    then show ?thesis by (simp add: route_def Let_def)
  next
    case payment
    then show ?thesis
      by (simp add: route_def Let_def)
  next
    case extraction
    let ?x = "extract_data_from_content stamp
                (if sc \<noteq> [] then sc else tc @ [CHR 0x0A] @ sc) st"
    have q: "quiet st (outcome ?x)" by (rule quiet_extract)
    show ?thesis
    proof (cases ?x)
      case (Inl x)
      with q extraction show ?thesis
        by (cases x) (auto simp add: route_def Let_def split: if_splits)
    next
      case (Inr st1)
      with q have "quiet st st1" by simp
      then have "quiet st (create_task_plan stamp (''Data Extraction - '' @ tn)
                             (Extraction_from tn) an st1)"
        by (rule quiet_trans) (rule quiet_plan)
      with Inr extraction show ?thesis
        by (auto simp add: route_def Let_def split: if_splits)
    qed
  next
    case default
    then show ?thesis by (simp add: route_def Let_def)
  qed
qed

lemma route_total:
  assumes "Logs \<in> dirs st"
  shows "\<exists>st'. route stamp tn tc sc an st = Inr st'"
proof -
  obtain s1 where "extract_data_from_content stamp
                     (if sc \<noteq> [] then sc else tc @ [CHR 0x0A] @ sc) st = Inr s1"
    using extract_total [OF assms] by blast
  then show ?thesis by (auto simp add: route_def Let_def split: if_splits)
qed

lemma quiet_shutil_move: "\<not> dry_run st \<Longrightarrow> quiet st (outcome (shutil_move n st))"
  by (auto simp add: shutil_move_def quiet_def kept_def split: option.splits)

lemma quiet_move_all: "\<not> dry_run st \<Longrightarrow> quiet st (outcome (move_all ns st))"
proof (induction ns arbitrary: st)
  case Nil
  then show ?case by simp
next
  case (Cons n ns)
  have q: "quiet st (outcome (shutil_move n st))"
    using Cons.prems by (rule quiet_shutil_move)
  show ?case
  proof (cases "shutil_move n st")
    case (Inl x)
    with q show ?thesis by (cases x) simp
  next
    case (Inr st1)
    with q have q1: "quiet st st1" by simp
    then have "\<not> dry_run st1" using Cons.prems by (simp add: quiet_def kept_def)
    then have "quiet st1 (outcome (move_all ns st1))" by (rule Cons.IH)
    with q1 Inr show ?thesis by (simp add: quiet_trans)
  qed
qed

lemma archive_dry: "dry_run st \<Longrightarrow> archive t sf tn st = Inr st"
  by (simp add: archive_def)

lemma archive_live:
  assumes "\<not> dry_run st"
  shows "kept st (outcome (archive t sf tn st)) \<and>
         activity_log (outcome (archive t sf tn st)) =
           activity_log st @ (case archive t sf tn st of Inl _ \<Rightarrow> [] | Inr _ \<Rightarrow> [archived_record t])"
proof (cases "shutil_move t st")
  case (Inl x)
  with quiet_shutil_move [OF assms, of t] assms show ?thesis
    by (cases x) (simp add: archive_def quiet_def)
next
  case (Inr st1)
  with quiet_shutil_move [OF assms, of t] have q1: "quiet st st1" by simp
  then have live1: "\<not> dry_run st1" using assms by (simp add: quiet_def kept_def)
  let ?rest = "if truthy sf
               then (case glob (needs_action st1) tn of
                       Inl e \<Rightarrow> Inl (e, st1)
                     | Inr possible_files \<Rightarrow>
                         move_all (filter (\<lambda>pf. pf \<noteq> t) possible_files) st1)
               else Inr st1"
  have q2: "quiet st1 (outcome ?rest)"
    using quiet_move_all [OF live1] by (auto split: sum.splits)
  show ?thesis
  proof (cases ?rest)
    case (Inl x)
    with q2 q1 Inr assms show ?thesis
      by (cases x) (auto simp add: archive_def quiet_def intro: kept_trans)
  next
    case r: (Inr st2)
    with q2 have "quiet st1 st2" by simp
    with q1 have "quiet st st2" by (rule quiet_trans)
    with r Inr assms show ?thesis
      by (auto simp add: archive_def quiet_def archived_record_def kept_def same_documents_def)
  qed
qed


lemma read_source_flag [simp]:
  "read_source sf tn (st\<lparr>dry_run := b\<rparr>) = read_source sf tn st"
  by (simp add: read_source_def cong: sum.case_cong list.case_cong)

text \<open>The two shapes a run of the steps has.\<close>

lemma task_steps_shape:
  obtains (raised) e where "task_steps stamp t tc st = Inl (e, st)"
        and "read_source (front_matter_field source_path_re tc)
               (case front_matter_field original_name_re tc of Some n \<Rightarrow> n | None \<Rightarrow> stem t) st
             = Inl e"
  | (ran) sc st3 where
      "read_source (front_matter_field source_path_re tc)
         (case front_matter_field original_name_re tc of Some n \<Rightarrow> n | None \<Rightarrow> stem t) st
       = Inr sc"
      "kept st st3"
      "activity_log st3 = activity_log st @
         [\<lparr>action = ''intent_analyzed'', subject_file = t,
           status = intent_name (intent (analyze_intent (tc @ [CHR 0x0A] @ sc))),
           details = Analysis (analyze_intent (tc @ [CHR 0x0A] @ sc))\<rparr>,
          \<lparr>action = ''task_processed'', subject_file = t, status = ''completed'',
           details = Processed (intent (analyze_intent (tc @ [CHR 0x0A] @ sc)))
                       (requires_approval (analyze_intent (tc @ [CHR 0x0A] @ sc)))\<rparr>]"
      "task_steps stamp t tc st =
         archive t (front_matter_field source_path_re tc)
           (case front_matter_field original_name_re tc of Some n \<Rightarrow> n | None \<Rightarrow> stem t) st3"
proof -
  let ?sf = "front_matter_field source_path_re tc"
  let ?tn = "case front_matter_field original_name_re tc of Some n \<Rightarrow> n | None \<Rightarrow> stem t"
  show thesis
  proof (cases "read_source ?sf ?tn st")
    case (Inl e)
    then have "task_steps stamp t tc st = Inl (e, st)"
      by (simp add: task_steps_def Let_def)
    then show thesis using Inl by (rule raised)
  next
    case (Inr sc)
    let ?an = "analyze_intent (tc @ [CHR 0x0A] @ sc)"
    let ?st1 = "log_activity ''intent_analyzed'' t (intent_name (intent ?an)) (Analysis ?an) st"
    have "Logs \<in> dirs ?st1" by simp
    then obtain st2 where r: "route stamp ?tn tc sc ?an ?st1 = Inr st2"
      using route_total by blast
    have "quiet ?st1 (outcome (route stamp ?tn tc sc ?an ?st1))" by (rule quiet_route)
    with r have q: "quiet ?st1 st2" by simp
    let ?st3 = "log_activity ''task_processed'' t ''completed''
                  (Processed (intent ?an) (requires_approval ?an)) st2"
    have k: "kept st ?st3"
      by (rule kept_trans [OF kept_log_activity kept_trans [OF quiet_kept [OF q] kept_log_activity]])
    have a: "activity_log ?st3 = activity_log st @
         [\<lparr>action = ''intent_analyzed'', subject_file = t,
           status = intent_name (intent ?an), details = Analysis ?an\<rparr>,
          \<lparr>action = ''task_processed'', subject_file = t, status = ''completed'',
           details = Processed (intent ?an) (requires_approval ?an)\<rparr>]"
      using q by (simp add: quiet_def)
    have "task_steps stamp t tc st = archive t ?sf ?tn ?st3"
      using Inr r by (simp add: task_steps_def Let_def)
    with Inr k a show thesis by (rule ran [of sc])
  qed
qed

lemma kept_task_steps: "kept st (outcome (task_steps stamp t tc st))"
proof (cases rule: task_steps_shape [of stamp t tc st])
  case (raised e)
  then show ?thesis by simp
next
  case (ran sc st3)
  show ?thesis
  proof (cases "dry_run st3")
    case True
    with ran show ?thesis by (simp add: archive_dry)
  next
    case False
    from archive_live [OF False] ran show ?thesis by (auto intro: kept_trans)
  qed
qed


lemma process_task_file_shape:
  obtains (unreadable) err where "read_file (needs_action st) t = Inl err"
        and "process_task_file stamp t st = log_error (Read_task_failed t err) st"
  | (raised) tc e st1 where "read_file (needs_action st) t = Inr tc"
        and "task_steps stamp t tc st = Inl (e, st1)"
        and "process_task_file stamp t st = log_error (Processing_failed t e) st1"
  | (finished) tc st1 where "read_file (needs_action st) t = Inr tc"
        and "task_steps stamp t tc st = Inr st1"
        and "process_task_file stamp t st = st1"
proof (cases "read_file (needs_action st) t")
  case (Inl err)
  then show thesis by (rule unreadable) (simp add: process_task_file_def Inl)
next
  case (Inr tc)
  show thesis
  proof (cases "task_steps stamp t tc st")
    case l: (Inl x)
    obtain e st1 where "x = (e, st1)" by (cases x)
    with l have "task_steps stamp t tc st = Inl (e, st1)" by simp
    with Inr show thesis by (rule raised) (simp add: process_task_file_def Inr l \<open>x = (e, st1)\<close>)
  next
    case r: (Inr st1)
    with Inr show thesis by (rule finished) (simp add: process_task_file_def Inr r)
  qed
qed

lemma dry_run_frame:
  assumes "dry_run st"
  shows "same_documents st (process_task_file stamp t st)"
proof (cases rule: process_task_file_shape [of st t stamp])
  case (unreadable err)
  then show ?thesis by (simp add: same_documents_def)
next
  case (raised tc e st1)
  with kept_task_steps [of st stamp t tc] assms show ?thesis
    by (simp add: kept_def same_documents_def)
next
  case (finished tc st1)
  with kept_task_steps [of st stamp t tc] assms show ?thesis
    by (simp add: kept_def)
qed







lemma activity_outcome:
  assumes "read_file (needs_action st) t = Inr tc"
  shows "activity_log (process_task_file stamp t st) =
           activity_log (outcome (task_steps stamp t tc st))"
proof (cases rule: process_task_file_shape [of st t stamp])
  case (unreadable err)
  with assms show ?thesis by simp
next
  case (raised tc' e st1)
  with assms show ?thesis by simp
next
  case (finished tc' st1)
  with assms show ?thesis by simp
qed

lemma compare_logs:
  "\<exists>rest. activity_log (process_task_file stamp t (st\<lparr>dry_run := False\<rparr>)) =
            activity_log (process_task_file stamp t (st\<lparr>dry_run := True\<rparr>)) @ rest \<and>
          (rest = [] \<or> rest = [archived_record t])"
proof (cases "read_file (needs_action st) t")
  case (Inl err)
  then show ?thesis by (simp add: process_task_file_def)
next
  case (Inr tc)
  let ?d = "st\<lparr>dry_run := True\<rparr>" and ?l = "st\<lparr>dry_run := False\<rparr>"
  have ad: "activity_log (process_task_file stamp t ?d) =
              activity_log (outcome (task_steps stamp t tc ?d))"
    and al: "activity_log (process_task_file stamp t ?l) =
              activity_log (outcome (task_steps stamp t tc ?l))"
    using Inr by (simp_all add: activity_outcome)
  show ?thesis
  proof (cases rule: task_steps_shape [of stamp t tc ?d])
    case (raised e)
    then have "task_steps stamp t tc ?l = Inl (e, ?l)"
      by (simp add: task_steps_def Let_def)
    with raised ad al show ?thesis by simp
  next
    case d: (ran sc st3)
    from d(2) have "dry_run st3" by (simp add: kept_def)
    with d(4) have dd: "activity_log (outcome (task_steps stamp t tc ?d)) = activity_log st3"
      by (simp add: archive_dry)
    show ?thesis
    proof (cases rule: task_steps_shape [of stamp t tc ?l])
      case (raised e)
      with d(1) show ?thesis by simp
    next
      case l: (ran sc' st3')
      from l(1) d(1) have "sc' = sc" by simp
      from l(2) have live: "\<not> dry_run st3'" by (simp add: kept_def)
      from archive_live [OF live] l(4)
      have "activity_log (outcome (task_steps stamp t tc ?l)) = activity_log st3' \<or>
            activity_log (outcome (task_steps stamp t tc ?l)) = activity_log st3' @ [archived_record t]"
        by (auto split: sum.splits)
      moreover have "activity_log st3' = activity_log st3"
        using l(3) d(3) \<open>sc' = sc\<close> by simp
      ultimately show ?thesis using ad al dd by auto
    qed
  qed
qed

subsection \<open>The scan\<close>


lemma dry_run_process [simp]: "dry_run (process_task_file stamp t st) = dry_run st"
proof (cases rule: process_task_file_shape [of st t stamp])
  case (unreadable err)
  then show ?thesis by simp
next
  case (raised tc e st1)
  with kept_task_steps [of st stamp t tc] show ?thesis by (simp add: kept_def)
next
  case (finished tc st1)
  with kept_task_steps [of st stamp t tc] show ?thesis by (simp add: kept_def)
qed



section \<open>Facts about the watcher\<close>

lemma logger_fields [simp]:
  "DRY_RUN (logger l st) = DRY_RUN st"
  "PROCESSED_FILES (logger l st) = PROCESSED_FILES st"
  "file_timers (logger l st) = file_timers st"
  "inbox_exists (logger l st) = inbox_exists st"
  "inbox (logger l st) = inbox st"
  "log_lines (logger l st) = log_lines st @ [l]"
  by (simp_all add: logger_def)

lemma accepted_logger [simp]: "accepted ev (logger l st) = accepted ev st"
  by (simp add: accepted_def cong: option.case_cong)

lemma accepted_timers [simp]: "accepted ev (st\<lparr>file_timers := x\<rparr>) = accepted ev st"
  by (simp add: accepted_def cong: option.case_cong)

lemma last_time_logger [simp]: "last_time (logger l st) p = last_time st p"
  by (simp add: last_time_def)

lemma counters_logger [simp]:
  "tasks_created (logger l st) =
     tasks_created st + (case l of Task_created _ \<Rightarrow> 1 | _ \<Rightarrow> 0)"
  "modify_triggers (logger l st) =
     modify_triggers st + (case l of Detected modified _ \<Rightarrow> 1 | _ \<Rightarrow> 0)"
  by (simp_all add: tasks_created_def modify_triggers_def split: log_line.splits event_kind.splits)

lemma counters_updates [simp]:
  "tasks_created (st\<lparr>PROCESSED_FILES := ps\<rparr>) = tasks_created st"
  "tasks_created (st\<lparr>inbox := ib\<rparr>) = tasks_created st"
  "tasks_created (st\<lparr>file_timers := ft\<rparr>) = tasks_created st"
  "modify_triggers (st\<lparr>PROCESSED_FILES := ps\<rparr>) = modify_triggers st"
  "modify_triggers (st\<lparr>inbox := ib\<rparr>) = modify_triggers st"
  "modify_triggers (st\<lparr>file_timers := ft\<rparr>) = modify_triggers st"
  by (simp_all add: tasks_created_def modify_triggers_def)

text \<open>A run of \<open>process_file\<close> that is not accepted leaves the processed set alone.\<close>

lemma process_file_rejected:
  assumes "\<not> accepted ev st"
  shows "PROCESSED_FILES (process_file ev st) = PROCESSED_FILES st"
  using assms
  unfolding process_file_def process_file_steps_def accepted_def create_task_def file_key_def Let_def
  by (auto split: option.splits if_splits prod.splits)


lemma process_file_unchanged [simp]:
  "DRY_RUN (process_file ev st) = DRY_RUN st"
  "inbox_exists (process_file ev st) = inbox_exists st"
  "file_timers (process_file ev st) = file_timers st"
  "modify_triggers (process_file ev st) = modify_triggers st"
  unfolding process_file_def process_file_steps_def create_task_def Let_def
  by (auto split: option.splits if_splits prod.splits)


lemma process_file_accepted_dry:
  assumes "accepted ev st" and "DRY_RUN st" and "seen ev = Some s" and "settled ev = Some f"
  shows "process_file ev st =
           st\<lparr>log_lines := log_lines st @
                [Processing (base_name (src_path ev)) (st_size f) (kind ev),
                 Dry_run_task (task_filename (timestamp ev)),
                 Dry_run_copy (base_name (src_path ev)),
                 Log_record (kind ev) (src_path ev) (task_filename (timestamp ev)) (st_size f) True],
              PROCESSED_FILES := insert (file_key ev s) (PROCESSED_FILES st)\<rparr>"
  using assms
  unfolding process_file_def process_file_steps_def accepted_def create_task_def file_key_def Let_def
  by (simp add: logger_def)

lemma process_file_accepted_live:
  assumes "accepted ev st" and "\<not> DRY_RUN st" and "seen ev = Some s" and "settled ev = Some f"
  shows "process_file ev st =
           st\<lparr>log_lines := log_lines st @
                [Processing (base_name (src_path ev)) (st_size f) (kind ev),
                 Task_created (task_filename (timestamp ev)),
                 File_copied (base_name (src_path ev)),
                 Log_record (kind ev) (src_path ev) (task_filename (timestamp ev)) (st_size f) False],
              inbox := AList.update (base_name (src_path ev)) (st_data f)
                         (AList.update (task_filename (timestamp ev))
                            (Utf8 (task_content (base_name (src_path ev)) (src_path ev) (st_size f)
                                     (timestamp ev)))
                            (inbox st)),
              PROCESSED_FILES := insert (file_key ev s) (PROCESSED_FILES st)\<rparr>"
  using assms
  unfolding process_file_def process_file_steps_def accepted_def create_task_def file_key_def Let_def
  by (simp add: logger_def)


lemma last_time_process_file [simp]: "last_time (process_file ev st) p = last_time st p"
  by (simp add: last_time_def)

subsection \<open>Debounce\<close>

lemma on_modified_suppressed:
  assumes "\<not> supported (src_path ev) \<or> now ev - last_time st (src_path ev) \<le> 2"
  shows "on_modified ev st = st"
  using assms by (auto simp add: on_modified_def)

lemma on_modified_triggered:
  assumes "supported (src_path ev)" and "now ev - last_time st (src_path ev) > 2"
  shows "modify_triggers (on_modified ev st) = Suc (modify_triggers st)"
    and "last_time (on_modified ev st) (src_path ev) = now ev"
  using assms by (simp_all add: on_modified_def last_time_def update_conv')

lemma debounce_pair:
  assumes "kind e1 = modified" and "kind e2 = modified"
    and "src_path e1 = p" and "src_path e2 = p"
  shows "(now e2 - now e1 \<le> 2 \<longrightarrow> modify_triggers (run [e1, e2] st) \<le> Suc (modify_triggers st)) \<and>
         (now e1 - last_time st p \<le> 2 \<and> now e2 - last_time st p \<le> 2 \<longrightarrow>
            run [e1, e2] st = st) \<and>
         (supported p \<and> now e1 - last_time st p > 2 \<and> now e2 - now e1 > 2 \<longrightarrow>
            modify_triggers (run [e1, e2] st) = modify_triggers st + 2)"
proof -
  have r: "run [e1, e2] st = on_modified e2 (on_modified e1 st)"
    using assms by (simp add: handle_event_def)
  show ?thesis
  proof (cases "supported p \<and> now e1 - last_time st p > 2")
    case True
    then have t1: "modify_triggers (on_modified e1 st) = Suc (modify_triggers st)"
      and l1: "last_time (on_modified e1 st) p = now e1"
      using on_modified_triggered [of e1 st] assms by simp_all
    have a: "now e2 - now e1 \<le> 2 \<Longrightarrow> on_modified e2 (on_modified e1 st) = on_modified e1 st"
      using l1 assms by (intro on_modified_suppressed) simp
    have b: "now e2 - now e1 > 2 \<Longrightarrow>
               modify_triggers (on_modified e2 (on_modified e1 st)) = Suc (Suc (modify_triggers st))"
      using on_modified_triggered(1) [of e2 "on_modified e1 st"] True l1 t1 assms by simp
    from True a b t1 show ?thesis unfolding r by auto
  next
    case False
    then have s1: "on_modified e1 st = st"
      using assms by (intro on_modified_suppressed) auto
    have "modify_triggers (on_modified e2 st) \<le> Suc (modify_triggers st)"
    proof (cases "supported p \<and> now e2 - last_time st p > 2")
      case True
      then show ?thesis using on_modified_triggered(1) [of e2 st] assms by simp
    next
      case False
      then have "on_modified e2 st = st" using assms by (intro on_modified_suppressed) auto
      then show ?thesis by simp
    qed
    moreover have "now e2 - last_time st p \<le> 2 \<Longrightarrow> on_modified e2 st = st"
      using assms by (intro on_modified_suppressed) simp
    ultimately show ?thesis using False s1 unfolding r by auto
  qed
qed


subsection \<open>Events\<close>

lemma handle_event_unchanged [simp]:
  "DRY_RUN (handle_event ev st) = DRY_RUN st"
  "inbox_exists (handle_event ev st) = inbox_exists st"
  by (simp_all add: handle_event_def on_created_def on_modified_def on_moved_def poll_file_def
      scan_file_def split: event_kind.splits option.splits)









subsection \<open>Rejections and exceptions\<close>

lemma supported_samples:
  "supported ''/drop/a.txt''" "\<not> supported ''/drop/a.exe''"
  by code_simp+

lemma process_file_dry_inbox:
  "DRY_RUN st \<Longrightarrow> inbox (process_file ev st) = inbox st \<and>
     tasks_created (process_file ev st) = tasks_created st"
  unfolding process_file_def process_file_steps_def create_task_def Let_def
  by (auto split: option.splits if_splits)

lemma process_file_raised:
  assumes "process_file_steps ev st = Inl (e, st1)"
  shows "process_file ev st = logger (Error_record (src_path ev) e) (logger (Error_line (src_path ev) e) st1)"
    and "\<not> accepted ev st"
  using assms
  unfolding process_file_def process_file_steps_def create_task_def accepted_def file_key_def Let_def
  by (auto split: option.splits if_splits prod.splits)

text \<open>
  A task creation that raises after the task document was opened leaves a task document
  behind and the fingerprint out of the set.
\<close>

lemma process_file_half_done:
  assumes "supported (src_path ev)" and "seen ev = Some s"
    and "file_key ev s \<notin> PROCESSED_FILES st"
    and "settled ev = Some f" and "st_size f \<noteq> 0"
    and "\<not> DRY_RUN st" and "inbox_exists st"
    and "raises_after_open ev"
  shows "\<exists>x. process_file_steps ev st = Inl x"
    and "task_filename (timestamp ev) \<in> fst ` set (inbox (process_file ev st))"
    and "PROCESSED_FILES (process_file ev st) = PROCESSED_FILES st"
  using assms
  unfolding process_file_def process_file_steps_def create_task_def file_key_def Let_def
    raises_after_open_def
  by (auto simp add: dom_update split: option.splits)

lemma accepted_processed:
  assumes "PROCESSED_FILES st' = PROCESSED_FILES st" and "DRY_RUN st' = DRY_RUN st"
    and "inbox_exists st' = inbox_exists st"
  shows "accepted ev st' = accepted ev st"
  by (simp only: accepted_def assms)

lemma accepted_after_rejected:
  assumes "\<not> accepted ev st"
  shows "accepted ev' (process_file ev st) = accepted ev' st"
  by (rule accepted_processed) (simp_all add: process_file_rejected [OF assms])







lemma run_unchanged [simp]:
  "DRY_RUN (run evs st) = DRY_RUN st"
  "inbox_exists (run evs st) = inbox_exists st"
  by (induction evs arbitrary: st) simp_all






section \<open>Scenario A\<close>


lemma drop_to_analysis:
  "analyze_intent
     (task_content ''invoice.txt'' ''/drop/invoice.txt'' 44
        ''2026-01-02T03:04:05'' @ [CHR 0x0A] @
      ''Invoice #INV-2024 from Acme Corp for $750.00'') =
     \<lparr>intent = payment_request, confidence = 9 / 10, priority = medium, category = finance,
      entities = [(''amount'', Number 44), (''invoice_number'', Text ''INV-2024''),
                  (''vendor'', Text ''Acme Corp for $750.00'')],
      requires_approval = False, approval_reason = None\<rparr>"
  by code_simp

section \<open>The claims\<close>

text \<open>
  C2. For every content classified as a payment request whose first amount is \<open>a\<close>, the
  amount entity is \<open>a\<close>; an amount of exactly 500 gives no approval requirement and the
  priority \<open>medium\<close>; an amount of 500.01 or more gives an approval requirement and the
  priority \<open>high\<close>.
\<close>

theorem threshold_behaviour:
  assumes "intent (analyze_intent content) = payment_request"
    and "first_amount content = Some a"
  shows "entity_of (analyze_intent content) ''amount'' = Some (Number a) \<and>
         (a = 500 \<longrightarrow> \<not> requires_approval (analyze_intent content) \<and>
                       priority (analyze_intent content) = medium) \<and>
         (a \<ge> 50001 / 100 \<longrightarrow> requires_approval (analyze_intent content) \<and>
                       priority (analyze_intent content) = high)"
proof -
  from assms(1) have "\<not> email_reply_rule (lower content)" "payment_rule (lower content)"
    by (simp_all add: payment_request_iff)
  then have br: "analyze_intent content = payment_branch content initial_results"
    by (rule analyze_intent_payment)
  show ?thesis
    unfolding br using payment_branch_amount [OF assms(2)] by auto
qed

text \<open>
  The theorem at the contents \<open>Please pay $500.00 to Bob\<close> and
  \<open>Please pay $500.01 to Bob\<close>.
\<close>

theorem threshold_behaviour_witness:
  "intent (analyze_intent ''Please pay $500.00 to Bob'') = payment_request \<and>
   first_amount ''Please pay $500.00 to Bob'' = Some 500 \<and>
   \<not> requires_approval (analyze_intent ''Please pay $500.00 to Bob'') \<and>
   priority (analyze_intent ''Please pay $500.00 to Bob'') = medium \<and>
   intent (analyze_intent ''Please pay $500.01 to Bob'') = payment_request \<and>
   first_amount ''Please pay $500.01 to Bob'' = Some (50001 / 100) \<and>
   requires_approval (analyze_intent ''Please pay $500.01 to Bob'') \<and>
   priority (analyze_intent ''Please pay $500.01 to Bob'') = high"
proof -
  have i1: "intent (analyze_intent ''Please pay $500.00 to Bob'') = payment_request"
    by (simp add: payment_request_iff pay_500_rules)
  have i2: "intent (analyze_intent ''Please pay $500.01 to Bob'') = payment_request"
    by (simp add: payment_request_iff pay_500_01_rules)
  show ?thesis
    using threshold_behaviour [OF i1 pay_500_amount]
      threshold_behaviour [OF i2 pay_500_01_amount] i1 i2 pay_500_amount pay_500_01_amount
    by simp
qed

text \<open>
  C5, as amended. The intent is that of the first rule that matches, in the order email
  reply, payment, extraction, default. A content that matches both the payment rule and
  the extraction rule is never classified as \<open>data_extraction\<close>; it is classified as
  \<open>payment_request\<close> when it does not match the email-reply rule as well.
\<close>

theorem rule_order:
  "intent (analyze_intent content) =
     (if email_reply_rule (lower content) then email_draft
      else if payment_rule (lower content) then payment_request
      else if extraction_rule (lower content) then data_extraction
      else unknown) \<and>
   (payment_rule (lower content) \<and> extraction_rule (lower content) \<longrightarrow>
      intent (analyze_intent content) \<noteq> data_extraction) \<and>
   (\<not> email_reply_rule (lower content) \<and> payment_rule (lower content) \<and>
    extraction_rule (lower content) \<longrightarrow>
      intent (analyze_intent content) = payment_request)"
  by (simp add: intent_analyze_intent)

theorem rule_order_witness:
  "\<not> email_reply_rule (lower ''Extract the invoice total'') \<and>
   payment_rule (lower ''Extract the invoice total'') \<and>
   extraction_rule (lower ''Extract the invoice total'') \<and>
   intent (analyze_intent ''Extract the invoice total'') = payment_request"
  using rule_order [of "''Extract the invoice total''"] extract_invoice_rules by simp

text \<open>
  C5 as stated fails: this content holds the keywords \<open>invoice\<close> and \<open>extract\<close>, and its
  intent is \<open>email_draft\<close>.
\<close>

theorem rule_order_counterexample:
  "payment_rule (lower ''Please reply: extract the invoice total'') \<and>
   extraction_rule (lower ''Please reply: extract the invoice total'') \<and>
   intent (analyze_intent ''Please reply: extract the invoice total'') = email_draft \<and>
   intent (analyze_intent ''Please reply: extract the invoice total'') \<noteq> payment_request"
  by (simp add: intent_analyze_intent reply_extract_invoice_rules)

text \<open>
  C9, as amended. For every content that matches the payment rule, does not match the
  email-reply rule, and holds no match of the amount pattern, the intent is
  \<open>payment_request\<close>, no approval is required, the priority is \<open>medium\<close> and there is no
  amount entity.
\<close>

theorem no_amount_no_gate:
  assumes "\<not> email_reply_rule (lower content)"
    and "payment_rule (lower content)"
    and "first_amount content = None"
  shows "intent (analyze_intent content) = payment_request \<and>
         \<not> requires_approval (analyze_intent content) \<and>
         priority (analyze_intent content) = medium \<and>
         entity_of (analyze_intent content) ''amount'' = None"
  unfolding analyze_intent_payment [OF assms(1) assms(2)]
  using payment_branch_no_amount [OF assms(3)] by simp

theorem no_amount_no_gate_witness:
  "\<not> email_reply_rule (lower ''Payment is overdue'') \<and>
   payment_rule (lower ''Payment is overdue'') \<and>
   first_amount ''Payment is overdue'' = None \<and>
   intent (analyze_intent ''Payment is overdue'') = payment_request \<and>
   \<not> requires_approval (analyze_intent ''Payment is overdue'') \<and>
   priority (analyze_intent ''Payment is overdue'') = medium \<and>
   entity_of (analyze_intent ''Payment is overdue'') ''amount'' = None"
  using no_amount_no_gate [OF overdue_rules] overdue_rules by simp

text \<open>
  C9 as stated fails: this content matches a payment keyword and holds no amount, and
  it is classified as \<open>email_draft\<close> with approval required.
\<close>

theorem no_amount_no_gate_counterexample:
  "payment_rule (lower ''Please reply about the invoice'') \<and>
   first_amount ''Please reply about the invoice'' = None \<and>
   intent (analyze_intent ''Please reply about the invoice'') = email_draft \<and>
   requires_approval (analyze_intent ''Please reply about the invoice'')"
  by (simp add: analyze_intent_email reply_invoice_rules)







text \<open>
  C4, as amended. In a dry run, processing a task leaves every document of the vault as
  it is (no artifact written, no document moved); the activity records of a dry run are
  those of the live run from the same vault without the record \<open>task_archived\<close>, which
  only a live run that has moved the task writes. In a dry run, processing a dropped file
  writes nothing to \<open>Needs_Action\<close>; for an accepted file it prints what it would do and
  records the fingerprint. Directories are left out of the statement.
\<close>

theorem dry_run_effects:
  "(dry_run st \<longrightarrow> same_documents st (process_task_file stamp t st)) \<and>
   (\<exists>rest. activity_log (process_task_file stamp t (st\<lparr>dry_run := False\<rparr>)) =
             activity_log (process_task_file stamp t (st\<lparr>dry_run := True\<rparr>)) @ rest \<and>
           (rest = [] \<or> rest = [archived_record t])) \<and>
   (DRY_RUN w \<longrightarrow> inbox (process_file ev w) = inbox w \<and>
                  tasks_created (process_file ev w) = tasks_created w) \<and>
   (DRY_RUN w \<and> accepted ev w \<longrightarrow>
      (\<exists>s f. seen ev = Some s \<and> settled ev = Some f \<and>
         process_file ev w =
           w\<lparr>log_lines := log_lines w @
                [Processing (base_name (src_path ev)) (st_size f) (kind ev),
                 Dry_run_task (task_filename (timestamp ev)),
                 Dry_run_copy (base_name (src_path ev)),
                 Log_record (kind ev) (src_path ev) (task_filename (timestamp ev)) (st_size f) True],
              PROCESSED_FILES := insert (file_key ev s) (PROCESSED_FILES w)\<rparr>))"
proof -
  have "DRY_RUN w \<and> accepted ev w \<Longrightarrow>
      (\<exists>s f. seen ev = Some s \<and> settled ev = Some f \<and>
         process_file ev w =
           w\<lparr>log_lines := log_lines w @
                [Processing (base_name (src_path ev)) (st_size f) (kind ev),
                 Dry_run_task (task_filename (timestamp ev)),
                 Dry_run_copy (base_name (src_path ev)),
                 Log_record (kind ev) (src_path ev) (task_filename (timestamp ev)) (st_size f) True],
              PROCESSED_FILES := insert (file_key ev s) (PROCESSED_FILES w)\<rparr>)"
  proof -
    assume a: "DRY_RUN w \<and> accepted ev w"
    then obtain s f where sf: "seen ev = Some s" "settled ev = Some f"
      by (auto simp add: accepted_def split: option.splits)
    from a process_file_accepted_dry [OF _ _ sf] sf show ?thesis by blast
  qed
  with dry_run_frame [of st stamp t] compare_logs [of stamp t st] process_file_dry_inbox [of w ev]
  show ?thesis by blast
qed

text \<open>
  The dry run at the sample vault and the sample watcher.
\<close>

theorem dry_run_effects_witness:
  "dry_run (sample_vault\<lparr>dry_run := True\<rparr>) \<and>
   same_documents (sample_vault\<lparr>dry_run := True\<rparr>)
     (process_task_file ''S'' ''t.md'' (sample_vault\<lparr>dry_run := True\<rparr>)) \<and>
   DRY_RUN (sample_watcher\<lparr>DRY_RUN := True\<rparr>) \<and>
   accepted (sample_event created ''/drop/a.txt'' 1000) (sample_watcher\<lparr>DRY_RUN := True\<rparr>) \<and>
   inbox (process_file (sample_event created ''/drop/a.txt'' 1000)
            (sample_watcher\<lparr>DRY_RUN := True\<rparr>)) = []"
proof -
  have a: "accepted (sample_event created ''/drop/a.txt'' 1000) (sample_watcher\<lparr>DRY_RUN := True\<rparr>)"
    by code_simp
  from dry_run_effects [of "sample_vault\<lparr>dry_run := True\<rparr>" "''S''" "''t.md''"
         "sample_watcher\<lparr>DRY_RUN := True\<rparr>" "sample_event created ''/drop/a.txt'' 1000"] a
  show ?thesis by (simp add: sample_watcher_def)
qed

text \<open>
  C4 as stated fails: the dry run of a payment task creates the directory \<open>Plans\<close>, and
  the live run logs one record more than the dry run, the record \<open>task_archived\<close>.
\<close>

theorem dry_run_effects_counterexample:
  "Plans \<notin> dirs (sample_vault\<lparr>dry_run := True\<rparr>) \<and>
   Plans \<in> dirs (process_task_file ''S'' ''t.md'' (sample_vault\<lparr>dry_run := True\<rparr>)) \<and>
   length (activity_log (process_task_file ''S'' ''t.md'' (sample_vault\<lparr>dry_run := True\<rparr>))) = 2 \<and>
   length (activity_log (process_task_file ''S'' ''t.md'' sample_vault)) = 3 \<and>
   last (activity_log (process_task_file ''S'' ''t.md'' sample_vault)) = archived_record ''t.md''"
  by code_simp

text \<open>
  C6, as amended. When the task document is absent from \<open>Needs_Action\<close>,
  \<open>process_task_file\<close> returns without raising, moves and writes no document (so there is
  no duplicate in \<open>Done\<close>), writes no activity record, and adds the entry
  \<open>Failed to read task file: File not found\<close> to the error log; the move itself,
  \<open>shutil.move\<close>, raises \<open>FileNotFoundError\<close> on the absent source.
\<close>

theorem absent_task:
  assumes "map_of (needs_action st) t = None"
  shows "process_task_file stamp t st = log_error (Read_task_failed t File_not_found) st \<and>
         same_documents st (process_task_file stamp t st) \<and>
         activity_log (process_task_file stamp t st) = activity_log st \<and>
         error_log (process_task_file stamp t st) =
           error_log st @ [Read_task_failed t File_not_found] \<and>
         shutil_move t st = Inl (FileNotFoundError, st)"
  using assms
  by (simp add: process_task_file_def read_file_def shutil_move_def same_documents_def)

text \<open>
  The task \<open>t.md\<close> of the sample vault, processed a second time.
\<close>

theorem absent_task_witness:
  "map_of (needs_action (process_task_file ''S'' ''t.md'' sample_vault)) ''t.md'' = None \<and>
   map fst (done_dir (process_task_file ''S'' ''t.md'' sample_vault)) = [''t.md''] \<and>
   done_dir (process_task_file ''T'' ''t.md'' (process_task_file ''S'' ''t.md'' sample_vault)) =
     done_dir (process_task_file ''S'' ''t.md'' sample_vault) \<and>
   error_log (process_task_file ''T'' ''t.md'' (process_task_file ''S'' ''t.md'' sample_vault)) =
     error_log (process_task_file ''S'' ''t.md'' sample_vault) @
       [Read_task_failed ''t.md'' File_not_found]"
proof -
  have gone: "map_of (needs_action (process_task_file ''S'' ''t.md'' sample_vault)) ''t.md'' = None"
    and arch: "map fst (done_dir (process_task_file ''S'' ''t.md'' sample_vault)) = [''t.md'']"
    by code_simp+
  from absent_task [OF gone, of "''T''"] gone arch show ?thesis
    by (simp add: same_documents_def)
qed

text \<open>
  C6 as stated fails: the first transition logs no error, the second one with the same
  task logs an error, and the move of the absent document raises.
\<close>

theorem absent_task_counterexample:
  "error_log (process_task_file ''S'' ''t.md'' sample_vault) = [] \<and>
   error_log (process_task_file ''T'' ''t.md'' (process_task_file ''S'' ''t.md'' sample_vault)) =
     [Read_task_failed ''t.md'' File_not_found] \<and>
   (case shutil_move ''t.md'' (process_task_file ''S'' ''t.md'' sample_vault) of
      Inl (e, _) \<Rightarrow> e = FileNotFoundError
    | Inr _ \<Rightarrow> False)"
  by code_simp



text \<open>
  C8, as amended. For two modified events on the same path: when they are at most 2
  apart, at most one of them triggers processing; when both are within 2 of the last
  trigger of the path, neither does; when the extension of the path is supported, the
  first is more than 2 after the last trigger and the second more than 2 after the
  first, both do. On a path with an unsupported extension no modified event triggers.
\<close>

theorem debounce:
  assumes "kind e1 = modified" and "kind e2 = modified"
    and "src_path e1 = p" and "src_path e2 = p"
  shows "(now e2 - now e1 \<le> 2 \<longrightarrow> modify_triggers (run [e1, e2] st) \<le> Suc (modify_triggers st)) \<and>
         (now e1 - last_time st p \<le> 2 \<and> now e2 - last_time st p \<le> 2 \<longrightarrow>
            run [e1, e2] st = st) \<and>
         (supported p \<and> now e1 - last_time st p > 2 \<and> now e2 - now e1 > 2 \<longrightarrow>
            modify_triggers (run [e1, e2] st) = modify_triggers st + 2) \<and>
         (\<not> supported p \<longrightarrow> run [e1, e2] st = st)"
proof -
  have "\<not> supported p \<Longrightarrow> run [e1, e2] st = st"
    using assms by (simp add: handle_event_def on_modified_def)
  with debounce_pair [OF assms, of st] show ?thesis by blast
qed

text \<open>
  Events one second apart, and three seconds apart, on the sample file.
\<close>

theorem debounce_witness:
  "modify_triggers (run [sample_event modified ''/drop/a.txt'' 1000,
                         sample_event modified ''/drop/a.txt'' 1001] sample_watcher) = 1 \<and>
   modify_triggers (run [sample_event modified ''/drop/a.txt'' 1000,
                         sample_event modified ''/drop/a.txt'' 1003] sample_watcher) = 2"
proof -
  have k: "\<And>t. kind (sample_event modified ''/drop/a.txt'' t) = modified"
    "\<And>t. src_path (sample_event modified ''/drop/a.txt'' t) = ''/drop/a.txt''"
    "\<And>t. now (sample_event modified ''/drop/a.txt'' t) = t"
    by (simp_all add: sample_event_def)
  have z: "modify_triggers sample_watcher = 0" "last_time sample_watcher ''/drop/a.txt'' = 0"
    by (simp_all add: modify_triggers_def sample_watcher_def last_time_def)
  have one: "modify_triggers (run [sample_event modified ''/drop/a.txt'' 1000,
                         sample_event modified ''/drop/a.txt'' 1001] sample_watcher) = 1"
    by code_simp
  from debounce [of "sample_event modified ''/drop/a.txt'' 1000"
      "sample_event modified ''/drop/a.txt'' 1003" "''/drop/a.txt''" sample_watcher] one
  show ?thesis by (simp add: k z supported_samples)
qed

text \<open>
  C8 as stated fails on a path whose extension is not supported: two modified events
  a thousand seconds apart trigger nothing.
\<close>

theorem debounce_counterexample:
  "now (sample_event modified ''/drop/a.exe'' 2000) - now (sample_event modified ''/drop/a.exe'' 1000) > 2 \<and>
   modify_triggers (run [sample_event modified ''/drop/a.exe'' 1000,
                         sample_event modified ''/drop/a.exe'' 2000] sample_watcher) = 0 \<and>
   run [sample_event modified ''/drop/a.exe'' 1000,
        sample_event modified ''/drop/a.exe'' 2000] sample_watcher = sample_watcher"
proof -
  have "run [sample_event modified ''/drop/a.exe'' 1000,
        sample_event modified ''/drop/a.exe'' 2000] sample_watcher = sample_watcher"
    by (simp add: handle_event_def on_modified_def sample_event_def supported_samples)
  then show ?thesis
    by (simp add: sample_event_def modify_triggers_def sample_watcher_def)
qed

text \<open>
  C10. On every rejection and failure path of \<open>process_file\<close> (unsupported extension,
  \<open>stat\<close> raising, file gone after the settle delay, empty file, any exception of the
  steps) the processed set is unchanged, and every later event is accepted exactly as
  it would have been before. A fingerprint that is new in the set is the fingerprint
  of the event, the last line printed is the log record of the created task, and the
  file was copied unless the run is dry. An accepted event adds its fingerprint. A
  task creation that raises after the task document was opened leaves the task document
  in \<open>Needs_Action\<close> and the processed set unchanged.
\<close>

theorem fingerprint_after_completion:
  "(\<not> supported (src_path ev) \<or> seen ev = None \<or> settled ev = None \<or>
    (\<exists>f. settled ev = Some f \<and> st_size f = 0) \<or> (\<exists>x. process_file_steps ev st = Inl x)
      \<longrightarrow> PROCESSED_FILES (process_file ev st) = PROCESSED_FILES st \<and>
          (\<forall>ev'. accepted ev' (process_file ev st) = accepted ev' st)) \<and>
   (\<forall>k. k \<in> PROCESSED_FILES (process_file ev st) \<and> k \<notin> PROCESSED_FILES st \<longrightarrow>
      (\<exists>s f. seen ev = Some s \<and> k = file_key ev s \<and> settled ev = Some f \<and> st_size f \<noteq> 0 \<and>
             last (log_lines (process_file ev st)) =
               Log_record (kind ev) (src_path ev) (task_filename (timestamp ev)) (st_size f)
                 (DRY_RUN st) \<and>
             (DRY_RUN st \<or>
              map_of (inbox (process_file ev st)) (base_name (src_path ev)) = Some (st_data f)))) \<and>
   (accepted ev st \<longrightarrow>
      (\<exists>s. seen ev = Some s \<and>
           PROCESSED_FILES (process_file ev st) = insert (file_key ev s) (PROCESSED_FILES st))) \<and>
   (supported (src_path ev) \<and> \<not> DRY_RUN st \<and> inbox_exists st \<and> raises_after_open ev \<and>
    (\<exists>s f. seen ev = Some s \<and> file_key ev s \<notin> PROCESSED_FILES st \<and>
           settled ev = Some f \<and> st_size f \<noteq> 0) \<longrightarrow>
      (\<exists>x. process_file_steps ev st = Inl x) \<and>
      task_filename (timestamp ev) \<in> fst ` set (inbox (process_file ev st)) \<and>
      PROCESSED_FILES (process_file ev st) = PROCESSED_FILES st)"
proof -
  have rej: "\<not> supported (src_path ev) \<or> seen ev = None \<or> settled ev = None \<or>
             (\<exists>f. settled ev = Some f \<and> st_size f = 0) \<or> (\<exists>x. process_file_steps ev st = Inl x)
             \<Longrightarrow> \<not> accepted ev st"
  proof -
    assume a: "\<not> supported (src_path ev) \<or> seen ev = None \<or> settled ev = None \<or>
             (\<exists>f. settled ev = Some f \<and> st_size f = 0) \<or> (\<exists>x. process_file_steps ev st = Inl x)"
    have "\<And>x. process_file_steps ev st = Inl x \<Longrightarrow> \<not> accepted ev st"
      using process_file_raised(2) [of ev st] by (metis surj_pair)
    with a show "\<not> accepted ev st" by (auto simp add: accepted_def)
  qed
  have part1: "\<not> accepted ev st \<Longrightarrow> PROCESSED_FILES (process_file ev st) = PROCESSED_FILES st \<and>
          (\<forall>ev'. accepted ev' (process_file ev st) = accepted ev' st)"
    by (simp add: process_file_rejected accepted_after_rejected)
  have part3: "accepted ev st \<Longrightarrow>
      (\<exists>s f. seen ev = Some s \<and> settled ev = Some f \<and> st_size f \<noteq> 0 \<and>
           PROCESSED_FILES (process_file ev st) = insert (file_key ev s) (PROCESSED_FILES st) \<and>
           last (log_lines (process_file ev st)) =
               Log_record (kind ev) (src_path ev) (task_filename (timestamp ev)) (st_size f)
                 (DRY_RUN st) \<and>
           (DRY_RUN st \<or>
              map_of (inbox (process_file ev st)) (base_name (src_path ev)) = Some (st_data f)))"
  proof -
    assume acc: "accepted ev st"
    then obtain s f where sf: "seen ev = Some s" "settled ev = Some f" "st_size f \<noteq> 0"
      by (auto simp add: accepted_def split: option.splits)
    show ?thesis
    proof (cases "DRY_RUN st")
      case True
      from process_file_accepted_dry [OF acc True sf(1) sf(2)] sf True show ?thesis by simp
    next
      case False
      from process_file_accepted_live [OF acc False sf(1) sf(2)] sf False show ?thesis
        by (simp add: update_conv')
    qed
  qed
  have part2: "\<And>k. k \<in> PROCESSED_FILES (process_file ev st) \<Longrightarrow> k \<notin> PROCESSED_FILES st \<Longrightarrow>
      (\<exists>s f. seen ev = Some s \<and> k = file_key ev s \<and> settled ev = Some f \<and> st_size f \<noteq> 0 \<and>
             last (log_lines (process_file ev st)) =
               Log_record (kind ev) (src_path ev) (task_filename (timestamp ev)) (st_size f)
                 (DRY_RUN st) \<and>
             (DRY_RUN st \<or>
              map_of (inbox (process_file ev st)) (base_name (src_path ev)) = Some (st_data f)))"
  proof -
    fix k assume k: "k \<in> PROCESSED_FILES (process_file ev st)" "k \<notin> PROCESSED_FILES st"
    then have "accepted ev st" using process_file_rejected [of ev st] by auto
    from part3 [OF this] k show "\<exists>s f. seen ev = Some s \<and> k = file_key ev s \<and> settled ev = Some f \<and> st_size f \<noteq> 0 \<and>
             last (log_lines (process_file ev st)) =
               Log_record (kind ev) (src_path ev) (task_filename (timestamp ev)) (st_size f)
                 (DRY_RUN st) \<and>
             (DRY_RUN st \<or>
              map_of (inbox (process_file ev st)) (base_name (src_path ev)) = Some (st_data f))"
      by auto
  qed
  have part4: "supported (src_path ev) \<and> \<not> DRY_RUN st \<and> inbox_exists st \<and> raises_after_open ev \<and>
    (\<exists>s f. seen ev = Some s \<and> file_key ev s \<notin> PROCESSED_FILES st \<and>
           settled ev = Some f \<and> st_size f \<noteq> 0) \<Longrightarrow>
      (\<exists>x. process_file_steps ev st = Inl x) \<and>
      task_filename (timestamp ev) \<in> fst ` set (inbox (process_file ev st)) \<and>
      PROCESSED_FILES (process_file ev st) = PROCESSED_FILES st"
    using process_file_half_done [of ev _ st] by blast
  from rej part1 part2 part3 part4 show ?thesis by blast
qed

text \<open>
  An event whose file is gone after the settle delay, an event whose copy raises, and
  a later event on the same file.
\<close>

theorem fingerprint_after_completion_witness:
  "settled ((sample_event created ''/drop/a.txt'' 1000)\<lparr>settled := None\<rparr>) = None \<and>
   PROCESSED_FILES (process_file ((sample_event created ''/drop/a.txt'' 1000)\<lparr>settled := None\<rparr>)
                      sample_watcher) = PROCESSED_FILES sample_watcher \<and>
   accepted (sample_event created ''/drop/a.txt'' 1010)
     (process_file ((sample_event created ''/drop/a.txt'' 1000)\<lparr>settled := None\<rparr>) sample_watcher) \<and>
   accepted (sample_event created ''/drop/a.txt'' 1010) sample_watcher \<and>
   PROCESSED_FILES (process_file (sample_event created ''/drop/a.txt'' 1010) sample_watcher) =
     {(''/drop/a.txt'', 7, 999)} \<and>
   raises_after_open ((sample_event created ''/drop/a.txt'' 1000)
                        \<lparr>copy_fault := Some (PermissionError, None)\<rparr>) \<and>
   ''task_2026-01-02T03-04-05.md'' \<in>
     fst ` set (inbox (process_file ((sample_event created ''/drop/a.txt'' 1000)
                                       \<lparr>copy_fault := Some (PermissionError, None)\<rparr>)
                         sample_watcher)) \<and>
   PROCESSED_FILES (process_file ((sample_event created ''/drop/a.txt'' 1000)
                                    \<lparr>copy_fault := Some (PermissionError, None)\<rparr>)
                      sample_watcher) = PROCESSED_FILES sample_watcher \<and>
   accepted (sample_event created ''/drop/a.txt'' 1010)
     (process_file ((sample_event created ''/drop/a.txt'' 1000)
                      \<lparr>copy_fault := Some (PermissionError, None)\<rparr>) sample_watcher)"
proof -
  have v: "settled ((sample_event created ''/drop/a.txt'' 1000)\<lparr>settled := None\<rparr>) = None"
    by (simp add: sample_event_def)
  have a: "accepted (sample_event created ''/drop/a.txt'' 1010) sample_watcher"
    by (simp add: accepted_def supported_samples sample_event_def sample_watcher_def
        sample_file_def)
  have r: "raises_after_open ((sample_event created ''/drop/a.txt'' 1000)
                        \<lparr>copy_fault := Some (PermissionError, None)\<rparr>)"
    by (simp add: raises_after_open_def sample_event_def)
  have h: "supported (src_path ((sample_event created ''/drop/a.txt'' 1000)
                        \<lparr>copy_fault := Some (PermissionError, None)\<rparr>)) \<and>
      \<not> DRY_RUN sample_watcher \<and> inbox_exists sample_watcher \<and>
      raises_after_open ((sample_event created ''/drop/a.txt'' 1000)
                        \<lparr>copy_fault := Some (PermissionError, None)\<rparr>) \<and>
      (\<exists>s f. seen ((sample_event created ''/drop/a.txt'' 1000)
                        \<lparr>copy_fault := Some (PermissionError, None)\<rparr>) = Some s \<and>
         file_key ((sample_event created ''/drop/a.txt'' 1000)
                        \<lparr>copy_fault := Some (PermissionError, None)\<rparr>) s
           \<notin> PROCESSED_FILES sample_watcher \<and>
         settled ((sample_event created ''/drop/a.txt'' 1000)
                        \<lparr>copy_fault := Some (PermissionError, None)\<rparr>) = Some f \<and>
         st_size f \<noteq> 0)"
    using r by (simp add: supported_samples sample_event_def sample_watcher_def sample_file_def)
  have n: "task_filename (timestamp ((sample_event created ''/drop/a.txt'' 1000)
                        \<lparr>copy_fault := Some (PermissionError, None)\<rparr>)) =
           ''task_2026-01-02T03-04-05.md''"
    by code_simp
  note t1 = fingerprint_after_completion
         [of "(sample_event created ''/drop/a.txt'' 1000)\<lparr>settled := None\<rparr>" sample_watcher,
          THEN conjunct1]
  note t3 = fingerprint_after_completion
         [of "sample_event created ''/drop/a.txt'' 1010" sample_watcher,
          THEN conjunct2, THEN conjunct2, THEN conjunct1]
  note t = fingerprint_after_completion
         [of "(sample_event created ''/drop/a.txt'' 1000)
                \<lparr>copy_fault := Some (PermissionError, None)\<rparr>" sample_watcher]
  note t4 = t [THEN conjunct2, THEN conjunct2, THEN conjunct2]
  from t4 h have f: "(\<exists>x. process_file_steps ((sample_event created ''/drop/a.txt'' 1000)
                        \<lparr>copy_fault := Some (PermissionError, None)\<rparr>) sample_watcher = Inl x) \<and>
      task_filename (timestamp ((sample_event created ''/drop/a.txt'' 1000)
                        \<lparr>copy_fault := Some (PermissionError, None)\<rparr>))
        \<in> fst ` set (inbox (process_file ((sample_event created ''/drop/a.txt'' 1000)
                        \<lparr>copy_fault := Some (PermissionError, None)\<rparr>) sample_watcher)) \<and>
      PROCESSED_FILES (process_file ((sample_event created ''/drop/a.txt'' 1000)
                        \<lparr>copy_fault := Some (PermissionError, None)\<rparr>) sample_watcher) =
        PROCESSED_FILES sample_watcher"
    by (rule mp)
  with t [THEN conjunct1]
  have g: "\<forall>ev'. accepted ev' (process_file ((sample_event created ''/drop/a.txt'' 1000)
                        \<lparr>copy_fault := Some (PermissionError, None)\<rparr>) sample_watcher) =
                 accepted ev' sample_watcher"
    by blast
  from t1 v have p1: "PROCESSED_FILES (process_file ((sample_event created ''/drop/a.txt'' 1000)\<lparr>settled := None\<rparr>)
                      sample_watcher) = PROCESSED_FILES sample_watcher"
    "\<forall>ev'. accepted ev' (process_file ((sample_event created ''/drop/a.txt'' 1000)\<lparr>settled := None\<rparr>)
                      sample_watcher) = accepted ev' sample_watcher"
    by blast+
  from t3 a have p3: "PROCESSED_FILES (process_file (sample_event created ''/drop/a.txt'' 1010) sample_watcher) =
     {(''/drop/a.txt'', 7, 999)}"
    by (auto simp add: sample_event_def sample_watcher_def sample_file_def file_key_def)
  from v a r f g p1 p3 show ?thesis unfolding n by simp
qed

end
